theory Spec2Isabelle
  imports Complex_Main
begin

section \<open>Data model of the map viewer (src/script.js)\<close>

text \<open>
  The viewer keeps its state in module-level variables that the event handlers mutate.
  The model collects them in one record and passes it explicitly.  JavaScript numbers are
  modelled as reals where they hold pixel coordinates and scales, and as integers where
  they hold tile indices (results of \<open>Math.floor\<close>).  A division by zero yields
  \<open>Infinity\<close> or \<open>NaN\<close> in JavaScript; the real numbers have no such values, so every
  division of the source is guarded in the model and the non-finite result is the value
  \<open>None\<close>.  Writes to the DOM that no handler reads back (the CSS transform, the marker
  elements, the active zoom button, pointer capture) are left out; the text of the
  command output field is kept as \<open>cmdOutput\<close>.
\<close>

type_synonym tile = "int \<times> int"

datatype pointer_type = Mouse | Touch | Pen

datatype zoom_mode = Fit | Abs

record pointer =
  px :: real
  py :: real
  ptype :: pointer_type

record state =
  imgW :: real
  imgH :: real
  scale :: real
  panX :: real
  panY :: real
  fitScale :: real
  zoomMode :: zoom_mode
  pointers :: "(int \<times> pointer) list"
  isPanning :: bool
  panLastX :: real
  panLastY :: real
  isPinching :: bool
  pinchStartDist :: real
  pinchStartScale :: real
  pinchMidWorld :: "(real \<times> real) option"
  isPathDrawing :: bool
  pathTiles :: "tile list"
  pathDirections :: "string list"
  lastTile :: "tile option"
  drawingPointerId :: "int option"
  drawCandidate :: "(int \<times> real \<times> real) option"
  cmdOutput :: string

definition TILE_SIZE :: real where
  "TILE_SIZE = 16"

definition ZOOM_MIN :: real where
  "ZOOM_MIN = 1 / 10"

definition ZOOM_MAX :: real where
  "ZOOM_MAX = 8"

text \<open>The module's initial values (script.js lines 23-46).\<close>

definition init_state :: state where
  "init_state =
     \<lparr> imgW = 0, imgH = 0, scale = 1, panX = 0, panY = 0, fitScale = 1, zoomMode = Fit,
       pointers = [], isPanning = False, panLastX = 0, panLastY = 0,
       isPinching = False, pinchStartDist = 0, pinchStartScale = 1,
       pinchMidWorld = Some (0, 0),
       isPathDrawing = False, pathTiles = [], pathDirections = [], lastTile = None,
       drawingPointerId = None, drawCandidate = None, cmdOutput = [] \<rparr>"

section \<open>Coordinate transform\<close>

definition clamp :: "real \<Rightarrow> real \<Rightarrow> real \<Rightarrow> real" where
  "clamp v a b = max a (min b v)"

text \<open>
  \<open>screenToWorld\<close> divides by the scale.  With a zero scale both coordinates are
  \<open>Infinity\<close> or \<open>NaN\<close> in the source; the model returns \<open>None\<close> then.
\<close>

definition screenToWorld :: "state \<Rightarrow> real \<Rightarrow> real \<Rightarrow> (real \<times> real) option" where
  "screenToWorld s sx sy =
     (if scale s = 0 then None
      else Some ((sx - panX s) / scale s, (sy - panY s) / scale s))"

definition worldToTile :: "real \<Rightarrow> real \<Rightarrow> tile" where
  "worldToTile wx wy = (\<lfloor>wx / TILE_SIZE\<rfloor>, \<lfloor>wy / TILE_SIZE\<rfloor>)"

definition withinImage :: "state \<Rightarrow> real \<Rightarrow> real \<Rightarrow> bool" where
  "withinImage s wx wy \<longleftrightarrow> wx \<ge> 0 \<and> wy \<ge> 0 \<and> wx \<le> imgW s \<and> wy \<le> imgH s"

section \<open>Path tracer\<close>

fun joinWith :: "string \<Rightarrow> string list \<Rightarrow> string" where
  "joinWith sep [] = []"
| "joinWith sep [x] = x"
| "joinWith sep (x # y # ys) = x @ sep @ joinWith sep (y # ys)"

definition clearPath :: "state \<Rightarrow> state" where
  "clearPath s = s\<lparr>pathTiles := [], pathDirections := [], lastTile := None, cmdOutput := []\<rparr>"

definition dirFromStep :: "int \<Rightarrow> int \<Rightarrow> string option" where
  "dirFromStep dx dy =
     (if dx = 1 \<and> dy = 0 then Some ''right''
      else if dx = -1 \<and> dy = 0 then Some ''left''
      else if dx = 0 \<and> dy = 1 then Some ''down''
      else if dx = 0 \<and> dy = -1 then Some ''up''
      else None)"

text \<open>
  One iteration of the loop of \<open>extendPathTo\<close> chooses its step from the remaining
  deltas: \<open>stepOf\<close> is the pair \<open>(stepX, stepY)\<close> of lines 152-160.
\<close>

definition stepOf :: "int \<Rightarrow> int \<Rightarrow> tile \<Rightarrow> int \<times> int" where
  "stepOf cx cy target =
     (let remX = fst target - cx; remY = snd target - cy
      in if \<bar>remX\<bar> \<ge> \<bar>remY\<bar> then (sgn remX, 0) else (0, sgn remY))"

text \<open>
  The \<open>while\<close> loop of \<open>extendPathTo\<close> (lines 151-172), on the loop variables
  \<open>cx\<close>, \<open>cy\<close> and the two arrays it pushes to.  A step whose direction
  \<open>dirFromStep\<close> does not name moves the cursor without recording anything, as in the
  source.
\<close>

function extendLoop ::
  "int \<Rightarrow> int \<Rightarrow> tile \<Rightarrow> string list \<Rightarrow> tile list \<Rightarrow> int \<times> int \<times> string list \<times> tile list"
where
  "extendLoop cx cy target dirs tiles =
     (if cx \<noteq> fst target \<or> cy \<noteq> snd target then
        (let (stepX, stepY) = stepOf cx cy target;
             cx' = cx + stepX;
             cy' = cy + stepY
         in case dirFromStep stepX stepY of
              Some stepDir \<Rightarrow> extendLoop cx' cy' target (dirs @ [stepDir]) (tiles @ [(cx', cy')])
            | None \<Rightarrow> extendLoop cx' cy' target dirs tiles)
      else (cx, cy, dirs, tiles))"
  by pat_completeness auto
termination
proof (relation "measure (\<lambda>(cx, cy, target, dirs, tiles).
                   nat (\<bar>fst target - cx\<bar> + \<bar>snd target - cy\<bar>))", goal_cases)
  case 1
  show ?case by simp
next
  case (2 cx cy target dirs tiles x xa y xb xc)
  then show ?case
    by (auto simp: stepOf_def Let_def sgn_if split: if_splits)
next
  case (3 cx cy target dirs tiles x xa y xb xc x2)
  then show ?case
    by (auto simp: stepOf_def Let_def sgn_if split: if_splits)
qed

declare extendLoop.simps [simp del]

definition extendPathTo :: "state \<Rightarrow> tile \<Rightarrow> state" where
  "extendPathTo s targetTile =
     (case lastTile s of
        None \<Rightarrow> s
      | Some (lx, ly) \<Rightarrow>
          (let (cx, cy, dirs, tiles) =
                 extendLoop lx ly targetTile (pathDirections s) (pathTiles s)
           in s\<lparr>pathDirections := dirs, pathTiles := tiles, lastTile := Some (cx, cy),
                cmdOutput := joinWith '' '' dirs\<rparr>))"

definition endPath :: "state \<Rightarrow> state" where
  "endPath s = s\<lparr>isPathDrawing := False\<rparr>"

text \<open>
  \<open>startPathAtScreen\<close> returns early when the world point is not within the image.  A
  non-finite world point fails every comparison with the finite image size, so a zero
  scale takes the same early return.
\<close>

definition startPathAtScreen :: "state \<Rightarrow> real \<Rightarrow> real \<Rightarrow> state" where
  "startPathAtScreen s sx sy =
     (case screenToWorld s sx sy of
        None \<Rightarrow> s
      | Some (wx, wy) \<Rightarrow>
          if \<not> withinImage s wx wy then s
          else (let s1 = clearPath s;
                    t = worldToTile wx wy
                in s1\<lparr>lastTile := Some t, pathTiles := pathTiles s1 @ [t],
                      isPathDrawing := True\<rparr>))"

text \<open>
  \<open>movePathAtScreen\<close> takes the pointer type and the state of the control key of the
  event as its options argument.
\<close>

definition movePathAtScreen :: "state \<Rightarrow> real \<Rightarrow> real \<Rightarrow> pointer_type \<Rightarrow> bool \<Rightarrow> state" where
  "movePathAtScreen s sx sy ptp ctrl =
     (if \<not> isPathDrawing s then s
      else case screenToWorld s sx sy of
             None \<Rightarrow> s
           | Some (wx, wy) \<Rightarrow>
               if \<not> withinImage s wx wy then s
               else (let t = worldToTile wx wy;
                         s1 = (if lastTile s = None \<or> lastTile s \<noteq> Some t
                               then extendPathTo s t else s)
                     in if ptp = Mouse \<and> \<not> ctrl then endPath s1 else s1))"

section \<open>Viewport state\<close>

text \<open>
  \<open>contentRect\<close> reads the sizes of the window and of the fixed bars from the DOM; the
  model takes its result as an argument of the operations that call it.
\<close>

record rect =
  rx :: real
  ry :: real
  rw :: real
  rh :: real

text \<open>
  \<open>computeFitAndCenter\<close> divides the size of the content rectangle by the image
  size, and the image size is zero until the image is loaded.  A JavaScript division
  by zero is \<open>Infinity\<close>, \<open>-Infinity\<close> or \<open>NaN\<close> by the sign of the dividend (the
  image size is a non-negative integer, so the zero is positive), and \<open>Math.min\<close>
  returns \<open>NaN\<close> if an argument is \<open>NaN\<close> and the smaller argument otherwise.  The
  two quotients and their minimum are modelled with these values; a fit scale that is
  not finite is the result \<open>None\<close>.  A finite fit scale with one image dimension zero
  (the other quotient is \<open>Infinity\<close>) is kept, as in the source.
\<close>

datatype jsnum = Fin real | PInf | NInf | NaN

definition js_div :: "real \<Rightarrow> real \<Rightarrow> jsnum" where
  "js_div a b =
     (if b \<noteq> 0 then Fin (a / b)
      else if a > 0 then PInf
      else if a < 0 then NInf
      else NaN)"

fun js_min :: "jsnum \<Rightarrow> jsnum \<Rightarrow> jsnum" where
  "js_min NaN _ = NaN"
| "js_min _ NaN = NaN"
| "js_min NInf _ = NInf"
| "js_min _ NInf = NInf"
| "js_min PInf y = y"
| "js_min x PInf = x"
| "js_min (Fin a) (Fin b) = Fin (min a b)"

definition computeFitAndCenter :: "state \<Rightarrow> rect \<Rightarrow> state option" where
  "computeFitAndCenter s r =
     (case js_min (js_div (rw r) (imgW s)) (js_div (rh r) (imgH s)) of
        Fin fs \<Rightarrow>
          (let drawnW = imgW s * fs;
               drawnH = imgH s * fs
           in Some (s\<lparr>fitScale := fs, scale := fs,
                      panX := rx r + (rw r - drawnW) / 2,
                      panY := ry r + (rh r - drawnH) / 2\<rparr>))
      | _ \<Rightarrow> None)"

text \<open>
  The argument of \<open>setZoom\<close> is the \<open>data-zoom\<close> attribute of the button pressed:
  the string \<open>fit\<close>, or a numeral that \<open>Number\<close> converts (\<open>ZLevel\<close> carries the
  converted value).
\<close>

datatype zoom_cmd = ZFit | ZLevel real

definition setZoom :: "state \<Rightarrow> rect \<Rightarrow> zoom_cmd \<Rightarrow> state option" where
  "setZoom s r cmd =
     (let midX = rx r + rw r / 2;
          midY = ry r + rh r / 2;
          midWorld = screenToWorld s midX midY
      in case cmd of
           ZFit \<Rightarrow> computeFitAndCenter (s\<lparr>zoomMode := Fit\<rparr>) r
         | ZLevel v \<Rightarrow>
             (case midWorld of
                None \<Rightarrow> None
              | Some (mwx, mwy) \<Rightarrow>
                  (let targetScale = clamp v ZOOM_MIN ZOOM_MAX
                   in Some (s\<lparr>zoomMode := Abs, scale := targetScale,
                              panX := midX - targetScale * mwx,
                              panY := midY - targetScale * mwy\<rparr>))))"

text \<open>The handler of the window's \<open>resize\<close> event (lines 443-457).\<close>

definition onResize :: "state \<Rightarrow> rect \<Rightarrow> state option" where
  "onResize s r =
     (if zoomMode s = Fit then computeFitAndCenter s r
      else (let midX = rx r + rw r / 2;
                midY = ry r + rh r / 2
            in case screenToWorld s midX midY of
                 None \<Rightarrow> None
               | Some (mwx, mwy) \<Rightarrow>
                   Some (s\<lparr>panX := midX - scale s * mwx, panY := midY - scale s * mwy\<rparr>)))"

section \<open>Gesture handling, first variant (script.js lines 225-407)\<close>

record event =
  pointerId :: int
  clientX :: real
  clientY :: real
  pointerType :: pointer_type
  button :: int
  ctrlKey :: bool

text \<open>
  \<open>pointers\<close> is a JavaScript \<open>Map\<close>: it keeps its keys in insertion order, and
  setting an existing key keeps the key's position.
\<close>

fun ptr_set :: "(int \<times> pointer) list \<Rightarrow> int \<Rightarrow> pointer \<Rightarrow> (int \<times> pointer) list" where
  "ptr_set [] k v = [(k, v)]"
| "ptr_set ((k', v') # m) k v = (if k' = k then (k, v) # m else (k', v') # ptr_set m k v)"

definition ptr_has :: "(int \<times> pointer) list \<Rightarrow> int \<Rightarrow> bool" where
  "ptr_has m k \<longleftrightarrow> k \<in> fst ` set m"

definition ptr_delete :: "(int \<times> pointer) list \<Rightarrow> int \<Rightarrow> (int \<times> pointer) list" where
  "ptr_delete m k = filter (\<lambda>kv. fst kv \<noteq> k) m"

definition dist :: "pointer \<Rightarrow> pointer \<Rightarrow> real" where
  "dist a b = sqrt ((px a - px b)\<^sup>2 + (py a - py b)\<^sup>2)"

definition midpoint :: "pointer \<Rightarrow> pointer \<Rightarrow> real \<times> real" where
  "midpoint a b = ((px a + px b) / 2, (py a + py b) / 2)"

text \<open>
  \<open>getTwoPointers\<close> reads the first two values of the map.  Its callers have checked
  that the map holds two entries; with fewer the source would fail on \<open>undefined\<close>,
  which is \<open>None\<close> here.
\<close>

definition getTwoPointers :: "state \<Rightarrow> (pointer \<times> pointer) option" where
  "getTwoPointers s =
     (case pointers s of (_, a) # (_, b) # _ \<Rightarrow> Some (a, b) | _ \<Rightarrow> None)"

definition DRAW_MOVE_THRESHOLD :: real where
  "DRAW_MOVE_THRESHOLD = 8"

definition beginTouchDraw :: "state \<Rightarrow> int \<Rightarrow> real \<Rightarrow> real \<Rightarrow> state" where
  "beginTouchDraw s pid x y =
     (if isPathDrawing s then s
      else startPathAtScreen (s\<lparr>drawingPointerId := Some pid\<rparr>) x y)"

text \<open>
  A pending draw candidate stands for its pending timer: \<open>cancelTouchCandidate\<close> clears
  the timer together with the candidate.
\<close>

definition cancelTouchCandidate :: "state \<Rightarrow> state" where
  "cancelTouchCandidate s = s\<lparr>drawCandidate := None\<rparr>"

definition abortDrawing :: "state \<Rightarrow> bool \<Rightarrow> state" where
  "abortDrawing s clear =
     (let s1 = s\<lparr>isPathDrawing := False, drawingPointerId := None\<rparr>
      in if clear then clearPath s1 else s1)"

definition tryStartCandidateIfMoved :: "state \<Rightarrow> event \<Rightarrow> state" where
  "tryStartCandidateIfMoved s e =
     (case drawCandidate s of
        None \<Rightarrow> s
      | Some (cid, cx, cy) \<Rightarrow>
          if pointerId e \<noteq> cid then s
          else (let dx = clientX e - cx; dy = clientY e - cy
                in if sqrt (dx\<^sup>2 + dy\<^sup>2) \<ge> DRAW_MOVE_THRESHOLD \<and> length (pointers s) = 1
                   then beginTouchDraw (cancelTouchCandidate s) (pointerId e) (clientX e) (clientY e)
                   else s))"

definition onPointerDown :: "state \<Rightarrow> event \<Rightarrow> state" where
  "onPointerDown s e =
     (let s1 = s\<lparr>pointers := ptr_set (pointers s) (pointerId e)
                    \<lparr>px = clientX e, py = clientY e, ptype = pointerType e\<rparr>\<rparr>
      in if pointerType e = Mouse then
           (if button e \<noteq> 0 then s1
            else if ctrlKey e then startPathAtScreen s1 (clientX e) (clientY e)
            else s1\<lparr>isPanning := True, panLastX := clientX e, panLastY := clientY e\<rparr>)
         else if pointerType e = Touch then
           (if length (pointers s1) = 2 then
              (let s2 = cancelTouchCandidate s1;
                   s3 = (if isPathDrawing s2 then abortDrawing s2 True else s2)
               in case getTwoPointers s3 of
                    None \<Rightarrow> s3\<lparr>isPinching := True\<rparr>
                  | Some (a, b) \<Rightarrow>
                      (let mid = midpoint a b
                       in s3\<lparr>isPinching := True, pinchStartDist := dist a b,
                             pinchStartScale := scale s3,
                             pinchMidWorld := screenToWorld s3 (fst mid) (snd mid),
                             zoomMode := Abs\<rparr>))
            else if length (pointers s1) = 1 then
              (case pointers s1 of
                 (pid, p) # _ \<Rightarrow>
                   (cancelTouchCandidate s1)\<lparr>drawCandidate := Some (pid, px p, py p)\<rparr>
               | [] \<Rightarrow> s1)
            else s1)
         else s1)"

text \<open>
  The callback of the candidate's timer (lines 304-310).  It runs only while the timer
  is pending, that is, while the candidate it belongs to is set.
\<close>

definition onDrawTimer :: "state \<Rightarrow> state" where
  "onDrawTimer s =
     (case drawCandidate s of
        None \<Rightarrow> s
      | Some (pid, x, y) \<Rightarrow>
          cancelTouchCandidate
            (if length (pointers s) = 1 then beginTouchDraw s pid x y else s))"

text \<open>
  In the pinch branch of \<open>onPointerMove\<close> the new pan offset is computed from the stored
  world midpoint; where that is non-finite the pan offset is too, and the result is
  \<open>None\<close>.
\<close>

definition onPointerMove :: "state \<Rightarrow> event \<Rightarrow> state option" where
  "onPointerMove s e =
     (if \<not> ptr_has (pointers s) (pointerId e) then Some s
      else
        (let s1 = s\<lparr>pointers := ptr_set (pointers s) (pointerId e)
                      \<lparr>px = clientX e, py = clientY e, ptype = pointerType e\<rparr>\<rparr>
         in if isPinching s1 \<and> length (pointers s1) \<ge> 2 then
              (case getTwoPointers s1 of
                 None \<Rightarrow> Some s1
               | Some (a, b) \<Rightarrow>
                   if pinchStartDist s1 > 0 then
                     (case pinchMidWorld s1 of
                        None \<Rightarrow> None
                      | Some (mwx, mwy) \<Rightarrow>
                          (let newDist = dist a b;
                               factor = newDist / pinchStartDist s1;
                               targetScale = clamp (pinchStartScale s1 * factor) ZOOM_MIN ZOOM_MAX;
                               mid = midpoint a b
                           in Some (s1\<lparr>scale := targetScale,
                                       panX := fst mid - targetScale * mwx,
                                       panY := snd mid - targetScale * mwy,
                                       zoomMode := Abs\<rparr>)))
                   else Some s1)
            else if isPanning s1 \<and> pointerType e = Mouse then
              (let dx = clientX e - panLastX s1; dy = clientY e - panLastY s1
               in Some (s1\<lparr>panX := panX s1 + dx, panY := panY s1 + dy,
                           panLastX := clientX e, panLastY := clientY e\<rparr>))
            else
              (let s2 = tryStartCandidateIfMoved s1 e
               in if isPathDrawing s2 then
                    (if pointerType e = Touch \<and> Some (pointerId e) \<noteq> drawingPointerId s2
                     then Some s2
                     else Some (movePathAtScreen s2 (clientX e) (clientY e)
                                  (pointerType e) (ctrlKey e)))
                  else Some s2)))"

definition onPointerUp :: "state \<Rightarrow> event \<Rightarrow> state" where
  "onPointerUp s e =
     (let s1 = (if ptr_has (pointers s) (pointerId e)
                then s\<lparr>pointers := ptr_delete (pointers s) (pointerId e)\<rparr> else s)
      in if pointerType e = Mouse then
           (let s2 = s1\<lparr>isPanning := False\<rparr>
            in if isPathDrawing s2 then endPath s2 else s2)
         else if pointerType e = Touch then
           (let s2 = (case drawCandidate s1 of
                        None \<Rightarrow> s1
                      | Some (cid, _, _) \<Rightarrow>
                          if pointerId e = cid then cancelTouchCandidate s1 else s1);
                s3 = (if isPathDrawing s2 \<and> Some (pointerId e) = drawingPointerId s2
                      then (endPath s2)\<lparr>drawingPointerId := None\<rparr> else s2)
            in if length (pointers s3) < 2 then s3\<lparr>isPinching := False\<rparr> else s3)
         else s1)"

section \<open>Gesture handling, second variant (script.js lines 701-737)\<close>

text \<open>
  The second half of script.js repeats the module without the touch gating.  Its helpers
  are the same as above; its \<open>pointerdown\<close> handler differs in the touch branch.
\<close>

definition onPointerDown_ungated :: "state \<Rightarrow> event \<Rightarrow> state" where
  "onPointerDown_ungated s e =
     (let s1 = s\<lparr>pointers := ptr_set (pointers s) (pointerId e)
                    \<lparr>px = clientX e, py = clientY e, ptype = pointerType e\<rparr>\<rparr>
      in if pointerType e = Mouse then
           (if button e \<noteq> 0 then s1
            else if ctrlKey e then startPathAtScreen s1 (clientX e) (clientY e)
            else s1\<lparr>isPanning := True, panLastX := clientX e, panLastY := clientY e\<rparr>)
         else if pointerType e = Touch then
           (if length (pointers s1) = 1 then
              (case pointers s1 of
                 (_, p) # _ \<Rightarrow> startPathAtScreen s1 (px p) (py p)
               | [] \<Rightarrow> s1)
            else if length (pointers s1) = 2 then
              (if isPathDrawing s1 then s1
               else case getTwoPointers s1 of
                      None \<Rightarrow> s1\<lparr>isPinching := True\<rparr>
                    | Some (a, b) \<Rightarrow>
                        (let mid = midpoint a b
                         in s1\<lparr>isPinching := True, pinchStartDist := dist a b,
                               pinchStartScale := scale s1,
                               pinchMidWorld := screenToWorld s1 (fst mid) (snd mid)\<rparr>))
            else s1)
         else s1)"

section \<open>Gesture handling, map-library variant (src/unnamed/part_000)\<close>

text \<open>
  The third variant leaves panning and zooming to the map library and keeps only the
  path state and the touch gating of its own.  The world point of an event is computed
  by the library (\<open>eventToWorld2x\<close>); the model takes it as a field of the event.
\<close>

record lf_state =
  lf_pointers :: "(int \<times> pointer_type) list"
  lf_drawingPointerId :: "int option"
  lf_isPathDrawing :: bool
  lf_drawCandidate :: "(int \<times> real \<times> real) option"
  lf_pathTiles :: "tile list"
  lf_pathDirections :: "string list"
  lf_lastTile :: "tile option"
  lf_cmdOutput :: string

record lf_event =
  lf_pointerId :: int
  lf_clientX :: real
  lf_clientY :: real
  lf_pointerType :: pointer_type
  lf_button :: int
  lf_ctrlKey :: bool
  lf_world2x :: "real \<times> real"

definition IMG_W2 :: real where
  "IMG_W2 = 7200 * 2"

definition IMG_H2 :: real where
  "IMG_H2 = 7200 * 2"

definition withinImage2x :: "real \<Rightarrow> real \<Rightarrow> bool" where
  "withinImage2x wx2 wy2 \<longleftrightarrow> wx2 \<ge> 0 \<and> wy2 \<ge> 0 \<and> wx2 \<le> IMG_W2 \<and> wy2 \<le> IMG_H2"

definition world2xToTile1x :: "real \<Rightarrow> real \<Rightarrow> tile" where
  "world2xToTile1x wx2 wy2 = (\<lfloor>(wx2 / 2) / 16\<rfloor>, \<lfloor>(wy2 / 2) / 16\<rfloor>)"

fun lf_ptr_set :: "(int \<times> pointer_type) list \<Rightarrow> int \<Rightarrow> pointer_type \<Rightarrow> (int \<times> pointer_type) list" where
  "lf_ptr_set [] k v = [(k, v)]"
| "lf_ptr_set ((k', v') # m) k v =
     (if k' = k then (k, v) # m else (k', v') # lf_ptr_set m k v)"

definition lf_clearPath :: "lf_state \<Rightarrow> lf_state" where
  "lf_clearPath s =
     s\<lparr>lf_pathTiles := [], lf_pathDirections := [], lf_lastTile := None, lf_cmdOutput := []\<rparr>"

definition lf_startPathAtEvent :: "lf_state \<Rightarrow> lf_event \<Rightarrow> lf_state" where
  "lf_startPathAtEvent s e =
     (let (wx, wy) = lf_world2x e
      in if \<not> withinImage2x wx wy then s
         else (let s1 = lf_clearPath s;
                   t = world2xToTile1x wx wy
               in s1\<lparr>lf_lastTile := Some t, lf_pathTiles := lf_pathTiles s1 @ [t],
                     lf_isPathDrawing := True\<rparr>))"

definition lf_endPath :: "lf_state \<Rightarrow> lf_state" where
  "lf_endPath s = s\<lparr>lf_isPathDrawing := False, lf_drawingPointerId := None\<rparr>"

definition lf_cancelTouchCandidate :: "lf_state \<Rightarrow> lf_state" where
  "lf_cancelTouchCandidate s = s\<lparr>lf_drawCandidate := None\<rparr>"

text \<open>The \<open>pointerdown\<close> listener of the map container (part_000 lines 256-296).\<close>

definition lf_onPointerDown :: "lf_state \<Rightarrow> lf_event \<Rightarrow> lf_state" where
  "lf_onPointerDown s e =
     (let s1 = s\<lparr>lf_pointers := lf_ptr_set (lf_pointers s) (lf_pointerId e) (lf_pointerType e)\<rparr>
      in if lf_pointerType e = Mouse then
           (if lf_button e \<noteq> 0 then s1
            else if lf_ctrlKey e then (lf_startPathAtEvent s1 e)\<lparr>lf_isPathDrawing := True\<rparr>
            else s1)
         else if lf_pointerType e = Touch then
           (if length (lf_pointers s1) = 2 then
              (let s2 = lf_cancelTouchCandidate s1
               in if lf_isPathDrawing s2 then lf_endPath s2 else s2)
            else if length (lf_pointers s1) = 1 then
              (lf_cancelTouchCandidate s1)
                \<lparr>lf_drawCandidate := Some (lf_pointerId e, lf_clientX e, lf_clientY e)\<rparr>
            else s1)
         else s1)"

section \<open>Sequences of inputs\<close>

text \<open>
  Everything that can happen to the first variant is one of these inputs: a pointer
  event (\<open>pointerup\<close>, \<open>pointercancel\<close> and \<open>lostpointercapture\<close> share the handler
  \<open>onPointerUp\<close>), the candidate's timer, a zoom button, or a resize of the window.
\<close>

datatype input =
    PDown event
  | PMove event
  | PUp event
  | DrawTimer
  | ZoomCmd rect zoom_cmd
  | Resize rect

fun apply_input :: "state \<Rightarrow> input \<Rightarrow> state option" where
  "apply_input s (PDown e) = Some (onPointerDown s e)"
| "apply_input s (PMove e) = onPointerMove s e"
| "apply_input s (PUp e) = Some (onPointerUp s e)"
| "apply_input s DrawTimer = Some (onDrawTimer s)"
| "apply_input s (ZoomCmd r cmd) = setZoom s r cmd"
| "apply_input s (Resize r) = onResize s r"

fun run_inputs :: "state \<Rightarrow> input list \<Rightarrow> state option" where
  "run_inputs s [] = Some s"
| "run_inputs s (i # is) =
     (case apply_input s i of None \<Rightarrow> None | Some s' \<Rightarrow> run_inputs s' is)"

text \<open>Inputs that come from touch pointers only, and inputs other than the fit command.\<close>

fun touch_input :: "input \<Rightarrow> bool" where
  "touch_input (PDown e) = (pointerType e = Touch)"
| "touch_input (PMove e) = (pointerType e = Touch)"
| "touch_input (PUp e) = (pointerType e = Touch)"
| "touch_input DrawTimer = True"
| "touch_input (ZoomCmd r cmd) = False"
| "touch_input (Resize r) = False"


text \<open>The operations of the path tracer, as one datatype.\<close>

datatype path_op =
    StartPath real real
  | ExtendTo tile
  | EndPath
  | ClearPath

fun apply_path_op :: "state \<Rightarrow> path_op \<Rightarrow> state" where
  "apply_path_op s (StartPath sx sy) = startPathAtScreen s sx sy"
| "apply_path_op s (ExtendTo t) = extendPathTo s t"
| "apply_path_op s EndPath = endPath s"
| "apply_path_op s ClearPath = clearPath s"

section \<open>Predicates of the properties\<close>

definition manhattan :: "tile \<Rightarrow> tile \<Rightarrow> int" where
  "manhattan target c = \<bar>fst target - fst c\<bar> + \<bar>snd target - snd c\<bar>"

text \<open>The cursor after one iteration of the loop of \<open>extendPathTo\<close> (lines 162-163).\<close>

definition advance :: "tile \<Rightarrow> tile \<Rightarrow> tile" where
  "advance target c =
     (let (stepX, stepY) = stepOf (fst c) (snd c) target in (fst c + stepX, snd c + stepY))"

text \<open>
  The invariant of the path state: an empty path has no directions and no last tile; a
  non-empty path has one direction fewer than tiles, its last tile is the one
  \<open>lastTile\<close> holds, each tile is one unit from its predecessor along one axis, and
  each direction is the token of that step.
\<close>

definition path_inv :: "state \<Rightarrow> bool" where
  "path_inv s \<longleftrightarrow>
     (if pathTiles s = [] then pathDirections s = [] \<and> lastTile s = None
      else lastTile s = Some (last (pathTiles s))
         \<and> length (pathDirections s) + 1 = length (pathTiles s)
         \<and> (\<forall>i < length (pathDirections s).
              \<bar>fst (pathTiles s ! (i + 1)) - fst (pathTiles s ! i)\<bar>
                + \<bar>snd (pathTiles s ! (i + 1)) - snd (pathTiles s ! i)\<bar> = 1
              \<and> dirFromStep (fst (pathTiles s ! (i + 1)) - fst (pathTiles s ! i))
                             (snd (pathTiles s ! (i + 1)) - snd (pathTiles s ! i))
                  = Some (pathDirections s ! i)))"

text \<open>
  The same condition on the steps, by recursion along the path: \<open>chain_ok c ts ds\<close>
  holds when the tiles \<open>ts\<close> continue a path from the tile \<open>c\<close> by unit steps whose
  tokens are \<open>ds\<close>.
\<close>

fun chain_ok :: "tile \<Rightarrow> tile list \<Rightarrow> string list \<Rightarrow> bool" where
  "chain_ok c [] [] = True"
| "chain_ok c (c' # ts) (d # ds) =
     (\<bar>fst c' - fst c\<bar> + \<bar>snd c' - snd c\<bar> = 1
      \<and> dirFromStep (fst c' - fst c) (snd c' - snd c) = Some d
      \<and> chain_ok c' ts ds)"
| "chain_ok c _ _ = False"

definition exclusive :: "state \<Rightarrow> bool" where
  "exclusive s \<longleftrightarrow>
     \<not> (isPanning s \<and> isPathDrawing s) \<and> \<not> (isPanning s \<and> isPinching s)
     \<and> \<not> (isPathDrawing s \<and> isPinching s)"

text \<open>
  Modelled from the spec: \<open>worldToScreen\<close> is not a function of the source, which only
  writes the transform \<open>translate(panX, panY) scale(scale)\<close> into the style of the stage
  element; the specification names it as the inverse of \<open>screenToWorld\<close>, mapping a
  world point \<open>w\<close> to \<open>scale * w + panOffset\<close>.
\<close>

definition worldToScreen :: "state \<Rightarrow> real \<times> real \<Rightarrow> real \<times> real" where
  "worldToScreen s w = (scale s * fst w + panX s, scale s * snd w + panY s)"

text \<open>
  An example state: the image of the map is loaded with 7200 by 7200 pixels, and a path
  has been started at the screen point \<open>(0, 0)\<close>, which lies in the tile \<open>(0, 0)\<close>.
\<close>

definition s_origin :: state where
  "s_origin = startPathAtScreen (init_state\<lparr>imgW := 7200, imgH := 7200\<rparr>) 0 0"



text \<open>
  The invariant behind the exclusion of the gestures under touch input: no panning, a
  pinch only with two or more active pointers, a drawing only with at most one, and a
  transform whose divisions are defined.
\<close>

definition gesture_inv :: "state \<Rightarrow> bool" where
  "gesture_inv s \<longleftrightarrow>
     \<not> isPanning s
     \<and> (isPinching s \<longrightarrow> 2 \<le> length (pointers s))
     \<and> (isPathDrawing s \<longrightarrow> length (pointers s) \<le> 1)
     \<and> scale s \<noteq> 0 \<and> pinchMidWorld s \<noteq> None"

text \<open>
  Example states and events: the idle viewer with the image loaded, a mouse press
  without the control key, two touches with different pointer ids, and the state in
  which the first touch has become a drawing through the candidate's timer.
\<close>

definition s_loaded :: state where
  "s_loaded = init_state\<lparr>imgW := 7200, imgH := 7200\<rparr>"

definition mouse_down :: event where
  "mouse_down = \<lparr>pointerId = 1, clientX = 10, clientY = 10, pointerType = Mouse,
                  button = 0, ctrlKey = False\<rparr>"

definition touch_first :: event where
  "touch_first = \<lparr>pointerId = 2, clientX = 0, clientY = 0, pointerType = Touch,
                   button = 0, ctrlKey = False\<rparr>"

definition touch_second :: event where
  "touch_second = \<lparr>pointerId = 3, clientX = 30, clientY = 40, pointerType = Touch,
                    button = 0, ctrlKey = False\<rparr>"

text \<open>
  The pointer events of the mouse as the browser delivers them: a press is delivered
  only while no button is down.  The flag says whether a button is down.
\<close>

fun mouse_seq :: "bool \<Rightarrow> input list \<Rightarrow> bool" where
  "mouse_seq down [] = True"
| "mouse_seq down (PDown e # is) = (pointerType e = Mouse \<and> \<not> down \<and> mouse_seq True is)"
| "mouse_seq down (PMove e # is) = (pointerType e = Mouse \<and> mouse_seq down is)"
| "mouse_seq down (PUp e # is) = (pointerType e = Mouse \<and> mouse_seq False is)"
| "mouse_seq down (_ # is) = False"

text \<open>
  The invariant behind the exclusion of the gestures under mouse input; the flag says
  whether a button is down.
\<close>

definition mouse_inv :: "bool \<Rightarrow> state \<Rightarrow> bool" where
  "mouse_inv down s \<longleftrightarrow>
     \<not> isPinching s \<and> drawCandidate s = None
     \<and> \<not> (isPanning s \<and> isPathDrawing s)
     \<and> (\<not> down \<longrightarrow> \<not> isPanning s \<and> \<not> isPathDrawing s)"

definition mouse_ctrl_down :: event where
  "mouse_ctrl_down = \<lparr>pointerId = 1, clientX = 20, clientY = 20, pointerType = Mouse,
                       button = 0, ctrlKey = True\<rparr>"

text \<open>
  The greedy walk in the words of the specification (section 4.4), to compare
  \<open>extendPathTo\<close> with: one step from a tile towards the target goes one unit along
  the horizontal axis when the absolute remaining horizontal delta is larger than or
  equal to the vertical one, and one unit along the vertical axis otherwise; the token
  of a step is right for \<open>(+1,0)\<close>, left for \<open>(-1,0)\<close>, down for \<open>(0,+1)\<close> and up
  for \<open>(0,-1)\<close>; the walk from the last tile to the target takes as many steps as
  their Manhattan distance.
\<close>

definition greedy_step :: "tile \<Rightarrow> tile \<Rightarrow> tile" where
  "greedy_step target c =
     (let dx = fst target - fst c; dy = snd target - snd c
      in if \<bar>dx\<bar> \<ge> \<bar>dy\<bar> then (fst c + sgn dx, snd c) else (fst c, snd c + sgn dy))"

definition step_token :: "tile \<Rightarrow> tile \<Rightarrow> string" where
  "step_token a b =
     (let d = (fst b - fst a, snd b - snd a)
      in if d = (1, 0) then ''right''
         else if d = (-1, 0) then ''left''
         else if d = (0, 1) then ''down''
         else if d = (0, -1) then ''up''
         else [])"

fun greedy_walk :: "nat \<Rightarrow> tile \<Rightarrow> tile \<Rightarrow> tile list" where
  "greedy_walk 0 target c = []"
| "greedy_walk (Suc n) target c = greedy_step target c # greedy_walk n target (greedy_step target c)"

fun walk_tokens :: "tile \<Rightarrow> tile list \<Rightarrow> string list" where
  "walk_tokens c [] = []"
| "walk_tokens c (c' # cs) = step_token c c' # walk_tokens c' cs"

definition greedy_cells :: "tile \<Rightarrow> tile \<Rightarrow> tile list" where
  "greedy_cells L T = greedy_walk (nat (manhattan T L)) T L"

definition greedy_dirs :: "tile \<Rightarrow> tile \<Rightarrow> string list" where
  "greedy_dirs L T = walk_tokens L (greedy_cells L T)"

text \<open>A move of the first touch to a screen point outside the image, for the examples.\<close>

definition touch_move_outside :: event where
  "touch_move_outside = \<lparr>pointerId = 2, clientX = 16000, clientY = -80, pointerType = Touch,
                          button = 0, ctrlKey = False\<rparr>"

definition s_drawing :: state where
  "s_drawing = onDrawTimer (onPointerDown s_loaded touch_first)"

section \<open>The stepping loop of the path tracer\<close>

lemma extendLoop_step:
  assumes "cx \<noteq> fst t \<or> cy \<noteq> snd t"
  shows "extendLoop cx cy t dirs tiles =
     (if \<bar>fst t - cx\<bar> \<ge> \<bar>snd t - cy\<bar>
      then extendLoop (cx + sgn (fst t - cx)) cy t
             (dirs @ [if fst t - cx > 0 then ''right'' else ''left''])
             (tiles @ [(cx + sgn (fst t - cx), cy)])
      else extendLoop cx (cy + sgn (snd t - cy)) t
             (dirs @ [if snd t - cy > 0 then ''down'' else ''up''])
             (tiles @ [(cx, cy + sgn (snd t - cy))]))"
  using assms
  by (subst extendLoop.simps) (auto simp: stepOf_def dirFromStep_def Let_def sgn_if)

lemma extendLoop_done: "extendLoop (fst t) (snd t) t dirs tiles = (fst t, snd t, dirs, tiles)"
  by (subst extendLoop.simps) simp

lemma chain_ok_append:
  "chain_ok c ts ds \<Longrightarrow> chain_ok (last (c # ts)) ts' ds' \<Longrightarrow> chain_ok c (ts @ ts') (ds @ ds')"
proof (induction c ts ds rule: chain_ok.induct)
  case (1 c)
  then show ?case by simp
next
  case (2 c c' ts d ds)
  then show ?case by simp
qed simp_all

lemma chain_ok_length: "chain_ok c ts ds \<Longrightarrow> length ds = length ts"
  by (induction c ts ds rule: chain_ok.induct) simp_all

lemma extendLoop_result:
  "\<exists>ds ts. extendLoop cx cy t dirs tiles = (fst t, snd t, dirs @ ds, tiles @ ts)
         \<and> int (length ts) = manhattan t (cx, cy)
         \<and> chain_ok (cx, cy) ts ds
         \<and> last ((cx, cy) # ts) = t"
proof (induction "nat (manhattan t (cx, cy))" arbitrary: cx cy dirs tiles)
  case 0
  then have "cx = fst t" "cy = snd t" by (auto simp: manhattan_def)
  then show ?case
    using extendLoop_done [of t dirs tiles] by (simp add: manhattan_def)
next
  case (Suc n)
  then have ne: "cx \<noteq> fst t \<or> cy \<noteq> snd t" by (auto simp: manhattan_def)
  show ?case
  proof (cases "\<bar>fst t - cx\<bar> \<ge> \<bar>snd t - cy\<bar>")
    case True
    let ?cx = "cx + sgn (fst t - cx)"
    let ?d = "if fst t - cx > 0 then ''right'' else ''left''"
    from True ne have nz: "fst t \<noteq> cx" by auto
    have m: "manhattan t (?cx, cy) = manhattan t (cx, cy) - 1"
      using nz by (auto simp: manhattan_def sgn_if)
    with Suc.hyps(2) have "n = nat (manhattan t (?cx, cy))" by simp
    from Suc.hyps(1) [OF this, of "dirs @ [?d]" "tiles @ [(?cx, cy)]"]
    obtain ds ts where r: "extendLoop ?cx cy t (dirs @ [?d]) (tiles @ [(?cx, cy)])
          = (fst t, snd t, (dirs @ [?d]) @ ds, (tiles @ [(?cx, cy)]) @ ts)"
      and l: "int (length ts) = manhattan t (?cx, cy)"
      and c: "chain_ok (?cx, cy) ts ds"
      and e: "last ((?cx, cy) # ts) = t" by blast
    have st: "dirFromStep (?cx - cx) 0 = Some ?d" "\<bar>?cx - cx\<bar> = 1"
      using nz by (auto simp: dirFromStep_def sgn_if)
    have "extendLoop cx cy t dirs tiles = (fst t, snd t, dirs @ (?d # ds), tiles @ ((?cx, cy) # ts))"
      using extendLoop_step [OF ne, of dirs tiles] True r by simp
    moreover have "int (length ((?cx, cy) # ts)) = manhattan t (cx, cy)"
      using l m by simp
    moreover have "chain_ok (cx, cy) ((?cx, cy) # ts) (?d # ds)"
      using c st by simp
    moreover have "last ((cx, cy) # (?cx, cy) # ts) = t" using e by simp
    ultimately show ?thesis by blast
  next
    case False
    let ?cy = "cy + sgn (snd t - cy)"
    let ?d = "if snd t - cy > 0 then ''down'' else ''up''"
    from False have nz: "snd t \<noteq> cy" by auto
    have m: "manhattan t (cx, ?cy) = manhattan t (cx, cy) - 1"
      using nz by (auto simp: manhattan_def sgn_if)
    with Suc.hyps(2) have "n = nat (manhattan t (cx, ?cy))" by simp
    from Suc.hyps(1) [OF this, of "dirs @ [?d]" "tiles @ [(cx, ?cy)]"]
    obtain ds ts where r: "extendLoop cx ?cy t (dirs @ [?d]) (tiles @ [(cx, ?cy)])
          = (fst t, snd t, (dirs @ [?d]) @ ds, (tiles @ [(cx, ?cy)]) @ ts)"
      and l: "int (length ts) = manhattan t (cx, ?cy)"
      and c: "chain_ok (cx, ?cy) ts ds"
      and e: "last ((cx, ?cy) # ts) = t" by blast
    have st: "dirFromStep 0 (?cy - cy) = Some ?d" "\<bar>?cy - cy\<bar> = 1"
      using nz by (auto simp: dirFromStep_def sgn_if)
    have "extendLoop cx cy t dirs tiles = (fst t, snd t, dirs @ (?d # ds), tiles @ ((cx, ?cy) # ts))"
      using extendLoop_step [OF ne, of dirs tiles] False r by simp
    moreover have "int (length ((cx, ?cy) # ts)) = manhattan t (cx, cy)"
      using l m by simp
    moreover have "chain_ok (cx, cy) ((cx, ?cy) # ts) (?d # ds)"
      using c st by simp
    moreover have "last ((cx, cy) # (cx, ?cy) # ts) = t" using e by simp
    ultimately show ?thesis by blast
  qed
qed

lemma extendLoop_here: "extendLoop cx cy (cx, cy) dirs tiles = (cx, cy, dirs, tiles)"
  using extendLoop_done [of "(cx, cy)" dirs tiles] by simp

lemma s_loaded_view:
  "scale s_loaded = 1" "panX s_loaded = 0" "panY s_loaded = 0"
  "imgW s_loaded = 7200" "imgH s_loaded = 7200" "pinchMidWorld s_loaded = Some (0, 0)"
  "zoomMode s_loaded = Fit" "pointers s_loaded = []"
  "isPanning s_loaded = False" "isPinching s_loaded = False" "isPathDrawing s_loaded = False"
  "drawCandidate s_loaded = None" "pathTiles s_loaded = []" "lastTile s_loaded = None"
  by (simp_all add: s_loaded_def init_state_def)

lemma s_origin_view:
  "scale s_origin = 1" "panX s_origin = 0" "panY s_origin = 0"
  "imgW s_origin = 7200" "imgH s_origin = 7200" "pinchMidWorld s_origin = Some (0, 0)"
  "zoomMode s_origin = Fit" "pointers s_origin = []"
  "isPanning s_origin = False" "isPinching s_origin = False" "isPathDrawing s_origin = True"
  by (simp_all add: s_origin_def startPathAtScreen_def init_state_def screenToWorld_def
        withinImage_def clearPath_def Let_def)

lemma s_origin_fields: "lastTile s_origin = Some (0, 0)" "pathTiles s_origin = [(0, 0)]" "pathDirections s_origin = []"
  by (simp_all add: s_origin_def startPathAtScreen_def init_state_def screenToWorld_def
        withinImage_def clearPath_def worldToTile_def TILE_SIZE_def Let_def)

lemma extendLoop_greedy:
  "extendLoop cx cy T dirs tiles =
     (fst T, snd T, dirs @ greedy_dirs (cx, cy) T, tiles @ greedy_cells (cx, cy) T)"
proof (induction "nat (manhattan T (cx, cy))" arbitrary: cx cy dirs tiles)
  case 0
  then have "cx = fst T" "cy = snd T" by (auto simp: manhattan_def)
  then show ?case
    using extendLoop_done [of T dirs tiles]
    by (simp add: greedy_dirs_def greedy_cells_def manhattan_def)
next
  case (Suc n)
  then have ne: "cx \<noteq> fst T \<or> cy \<noteq> snd T" by (auto simp: manhattan_def)
  let ?c = "greedy_step T (cx, cy)"
  have m: "manhattan T ?c = manhattan T (cx, cy) - 1"
    using ne by (auto simp: manhattan_def greedy_step_def Let_def sgn_if)
  with Suc.hyps(2) have n: "n = nat (manhattan T ?c)" by simp
  have cells: "greedy_cells (cx, cy) T = ?c # greedy_cells ?c T"
    using Suc.hyps(2) n by (simp add: greedy_cells_def flip: Suc.hyps(2))
  have dirs: "greedy_dirs (cx, cy) T = step_token (cx, cy) ?c # greedy_dirs ?c T"
    by (simp add: greedy_dirs_def cells)
  have step: "extendLoop cx cy T dirs tiles =
      extendLoop (fst ?c) (snd ?c) T (dirs @ [step_token (cx, cy) ?c]) (tiles @ [?c])"
    using extendLoop_step [OF ne, of dirs tiles] ne
    by (auto simp: greedy_step_def step_token_def Let_def sgn_if)
  from Suc.hyps(1) [of "fst ?c" "snd ?c" "dirs @ [step_token (cx, cy) ?c]" "tiles @ [?c]"] n
  have "extendLoop (fst ?c) (snd ?c) T (dirs @ [step_token (cx, cy) ?c]) (tiles @ [?c]) =
      (fst T, snd T, (dirs @ [step_token (cx, cy) ?c]) @ greedy_dirs ?c T,
       (tiles @ [?c]) @ greedy_cells ?c T)"
    by simp
  with step cells dirs show ?case by simp
qed

lemma greedy_cells_scenario:
  "greedy_cells (0, 0) (3, 1) = [(1, 0), (2, 0), (3, 0), (3, 1)]"
  "greedy_dirs (0, 0) (3, 1) = [''right'', ''right'', ''right'', ''down'']"
  by (simp_all add: greedy_dirs_def greedy_cells_def manhattan_def numeral_eq_Suc
        greedy_step_def step_token_def Let_def)

text \<open>
  Claim C3.  \<open>extendPathTo\<close> does nothing without an active path, and appends nothing
  when the target is the last tile.  For an active path with last tile \<open>(lx, ly)\<close>
  and a different target \<open>(tx, ty)\<close> it first appends one tile next to the last one,
  along the horizontal axis when the absolute remaining horizontal delta is at least
  the vertical one (so ties go to the horizontal axis) and along the vertical axis
  otherwise, records the token of that step, and continues from there.  Its result is
  the old path followed by the greedy walk of the specification from the last tile to
  the target, which has as many tiles as the Manhattan distance and ends at the target.
  Extending the path \<open>(0,0)\<close> to \<open>(3,1)\<close> gives the tiles
  \<open>(0,0),(1,0),(2,0),(3,0),(3,1)\<close> and the directions right, right, right, down.
\<close>

theorem extendPathTo_steps_greedily:
  "(lastTile s = None \<longrightarrow> extendPathTo s (tx, ty) = s)
   \<and> (lastTile s = Some (tx, ty) \<longrightarrow>
        extendPathTo s (tx, ty) = s\<lparr>cmdOutput := joinWith '' '' (pathDirections s)\<rparr>)
   \<and> (lastTile s = Some (lx, ly) \<and> (lx, ly) \<noteq> (tx, ty) \<longrightarrow>
        extendPathTo s (tx, ty) =
          (if \<bar>tx - lx\<bar> \<ge> \<bar>ty - ly\<bar>
           then extendPathTo
                  (s\<lparr>pathDirections := pathDirections s @ [if tx - lx > 0 then ''right'' else ''left''],
                     pathTiles := pathTiles s @ [(lx + sgn (tx - lx), ly)],
                     lastTile := Some (lx + sgn (tx - lx), ly)\<rparr>) (tx, ty)
           else extendPathTo
                  (s\<lparr>pathDirections := pathDirections s @ [if ty - ly > 0 then ''down'' else ''up''],
                     pathTiles := pathTiles s @ [(lx, ly + sgn (ty - ly))],
                     lastTile := Some (lx, ly + sgn (ty - ly))\<rparr>) (tx, ty)))
   \<and> (lastTile s = Some (lx, ly) \<longrightarrow>
        extendPathTo s (tx, ty) =
          s\<lparr>pathDirections := pathDirections s @ greedy_dirs (lx, ly) (tx, ty),
            pathTiles := pathTiles s @ greedy_cells (lx, ly) (tx, ty),
            lastTile := Some (tx, ty),
            cmdOutput := joinWith '' '' (pathDirections s @ greedy_dirs (lx, ly) (tx, ty))\<rparr>
      \<and> int (length (greedy_cells (lx, ly) (tx, ty))) = \<bar>tx - lx\<bar> + \<bar>ty - ly\<bar>
      \<and> ((lx, ly) \<noteq> (tx, ty) \<longrightarrow> last (pathTiles (extendPathTo s (tx, ty))) = (tx, ty)))
   \<and> (lastTile s = Some (0, 0) \<and> pathTiles s = [(0, 0)] \<and> pathDirections s = [] \<longrightarrow>
        pathTiles (extendPathTo s (3, 1)) = [(0, 0), (1, 0), (2, 0), (3, 0), (3, 1)]
      \<and> pathDirections (extendPathTo s (3, 1)) = [''right'', ''right'', ''right'', ''down''])"
proof (intro conjI impI)
  assume "lastTile s = None"
  then show "extendPathTo s (tx, ty) = s" by (simp add: extendPathTo_def)
next
  assume "lastTile s = Some (tx, ty)"
  then show "extendPathTo s (tx, ty) = s\<lparr>cmdOutput := joinWith '' '' (pathDirections s)\<rparr>"
    by (simp add: extendPathTo_def extendLoop_here)
next
  assume a: "lastTile s = Some (lx, ly) \<and> (lx, ly) \<noteq> (tx, ty)"
  then have ne: "lx \<noteq> fst (tx, ty) \<or> ly \<noteq> snd (tx, ty)" by auto
  show "extendPathTo s (tx, ty) =
          (if \<bar>tx - lx\<bar> \<ge> \<bar>ty - ly\<bar>
           then extendPathTo
                  (s\<lparr>pathDirections := pathDirections s @ [if tx - lx > 0 then ''right'' else ''left''],
                     pathTiles := pathTiles s @ [(lx + sgn (tx - lx), ly)],
                     lastTile := Some (lx + sgn (tx - lx), ly)\<rparr>) (tx, ty)
           else extendPathTo
                  (s\<lparr>pathDirections := pathDirections s @ [if ty - ly > 0 then ''down'' else ''up''],
                     pathTiles := pathTiles s @ [(lx, ly + sgn (ty - ly))],
                     lastTile := Some (lx, ly + sgn (ty - ly))\<rparr>) (tx, ty))"
    using a extendLoop_step [OF ne, of "pathDirections s" "pathTiles s"]
    by (simp add: extendPathTo_def split: prod.splits)
next
  assume a: "lastTile s = Some (lx, ly)"
  then show "extendPathTo s (tx, ty) =
          s\<lparr>pathDirections := pathDirections s @ greedy_dirs (lx, ly) (tx, ty),
            pathTiles := pathTiles s @ greedy_cells (lx, ly) (tx, ty),
            lastTile := Some (tx, ty),
            cmdOutput := joinWith '' '' (pathDirections s @ greedy_dirs (lx, ly) (tx, ty))\<rparr>"
    by (simp add: extendPathTo_def extendLoop_greedy)
next
  show "int (length (greedy_cells (lx, ly) (tx, ty))) = \<bar>tx - lx\<bar> + \<bar>ty - ly\<bar>"
    using extendLoop_result [of lx ly "(tx, ty)" "[]" "[]"]
    by (simp add: extendLoop_greedy manhattan_def)
next
  assume a: "lastTile s = Some (lx, ly)" and ne: "(lx, ly) \<noteq> (tx, ty)"
  from extendLoop_result [of lx ly "(tx, ty)" "pathDirections s" "pathTiles s"]
  obtain ds ts where r: "extendLoop lx ly (tx, ty) (pathDirections s) (pathTiles s)
        = (tx, ty, pathDirections s @ ds, pathTiles s @ ts)"
    and e: "last ((lx, ly) # ts) = (tx, ty)" by auto
  from e ne have "ts \<noteq> []" "last ts = (tx, ty)" by (cases ts; auto)+
  with a r show "last (pathTiles (extendPathTo s (tx, ty))) = (tx, ty)"
    by (simp add: extendPathTo_def)
next
  assume b: "lastTile s = Some (0, 0) \<and> pathTiles s = [(0, 0)] \<and> pathDirections s = []"
  then show "pathTiles (extendPathTo s (3, 1)) = [(0, 0), (1, 0), (2, 0), (3, 0), (3, 1)]"
    and "pathDirections (extendPathTo s (3, 1)) = [''right'', ''right'', ''right'', ''down'']"
    by (simp_all add: extendPathTo_def extendLoop_greedy greedy_cells_scenario)
qed


theorem extendPathTo_steps_greedily_witness:
  "lastTile s_loaded = None \<and> extendPathTo s_loaded (3, 1) = s_loaded
   \<and> lastTile s_origin = Some (0, 0) \<and> ((0, 0) :: tile) \<noteq> (3, 1)
   \<and> pathTiles s_origin = [(0, 0)] \<and> pathDirections s_origin = []
   \<and> extendPathTo s_origin (3, 1) =
       extendPathTo (s_origin\<lparr>pathDirections := [''right''], pathTiles := [(0, 0), (1, 0)],
                              lastTile := Some (1, 0)\<rparr>) (3, 1)
   \<and> extendPathTo s_origin (3, 1) =
       s_origin\<lparr>pathDirections := [''right'', ''right'', ''right'', ''down''],
                pathTiles := [(0, 0), (1, 0), (2, 0), (3, 0), (3, 1)],
                lastTile := Some (3, 1), cmdOutput := ''right right right down''\<rparr>
   \<and> last (pathTiles (extendPathTo s_origin (3, 1))) = (3, 1)
   \<and> extendPathTo s_origin (0, 0) = s_origin\<lparr>cmdOutput := []\<rparr>"
proof -
  note t = extendPathTo_steps_greedily [of s_origin 3 1 0 0]
  note f = s_origin_fields
  have 0: "extendPathTo s_loaded (3, 1) = s_loaded"
    using extendPathTo_steps_greedily [of s_loaded 3 1 0 0] by (simp add: s_loaded_view)
  have a: "lastTile s_origin = Some (0, 0) \<and> ((0, 0) :: tile) \<noteq> (3, 1)"
    by (simp add: f)
  from t a have 1: "extendPathTo s_origin (3, 1) =
       extendPathTo (s_origin\<lparr>pathDirections := [''right''], pathTiles := [(0, 0), (1, 0)],
                              lastTile := Some (1, 0)\<rparr>) (3, 1)"
    by (simp add: f)
  from t have "lastTile s_origin = Some (0, 0) \<longrightarrow>
      extendPathTo s_origin (3, 1) =
          s_origin\<lparr>pathDirections := pathDirections s_origin @ greedy_dirs (0, 0) (3, 1),
            pathTiles := pathTiles s_origin @ greedy_cells (0, 0) (3, 1),
            lastTile := Some (3, 1),
            cmdOutput := joinWith '' '' (pathDirections s_origin @ greedy_dirs (0, 0) (3, 1))\<rparr>
      \<and> ((0, 0) \<noteq> ((3, 1) :: tile) \<longrightarrow> last (pathTiles (extendPathTo s_origin (3, 1))) = (3, 1))"
    by blast
  then have 2: "extendPathTo s_origin (3, 1) =
       s_origin\<lparr>pathDirections := [''right'', ''right'', ''right'', ''down''],
                pathTiles := [(0, 0), (1, 0), (2, 0), (3, 0), (3, 1)],
                lastTile := Some (3, 1), cmdOutput := ''right right right down''\<rparr>"
    and 3: "last (pathTiles (extendPathTo s_origin (3, 1))) = (3, 1)"
    by (simp_all add: f greedy_cells_scenario)
  have 4: "extendPathTo s_origin (0, 0) = s_origin\<lparr>cmdOutput := []\<rparr>"
    using extendPathTo_steps_greedily [of s_origin 0 0 0 0] by (simp add: f)
  from 0 1 2 3 4 show ?thesis by (simp only: f s_loaded_view simp_thms prod.inject) simp
qed

section \<open>Termination of the stepping loop\<close>

lemma advance_manhattan:
  "c \<noteq> t \<Longrightarrow> manhattan t (advance t c) = manhattan t c - 1"
  by (cases c; cases t) (auto simp: manhattan_def advance_def stepOf_def Let_def sgn_if)

lemma manhattan_zero_iff: "manhattan t c = 0 \<longleftrightarrow> c = t"
  by (cases c; cases t) (auto simp: manhattan_def)

lemma manhattan_nonneg: "0 \<le> manhattan t c"
  by (simp add: manhattan_def)

lemma manhattan_funpow:
  "int k \<le> manhattan t c \<Longrightarrow> manhattan t ((advance t ^^ k) c) = manhattan t c - int k"
proof (induction k)
  case 0
  then show ?case by simp
next
  case (Suc k)
  then have ih: "manhattan t ((advance t ^^ k) c) = manhattan t c - int k" by simp
  with Suc.prems have "manhattan t ((advance t ^^ k) c) \<noteq> 0" by simp
  then have "(advance t ^^ k) c \<noteq> t" by (simp add: manhattan_zero_iff)
  from advance_manhattan [OF this] ih show ?case by simp
qed

text \<open>
  Claim C9.  \<open>extendPathTo\<close> terminates for every last tile and target: an iteration
  of its loop moves the cursor by \<open>advance\<close>, pushing one tile and one direction, and
  lowers the Manhattan distance to the target by one, the loop condition holds for exactly as many iterations as that
  distance, and the loop returns at the target having pushed that many tiles.  (That
  \<open>extendLoop\<close> is total is its termination proof above.)
\<close>

theorem extendPathTo_terminates:
  "(c \<noteq> t \<longrightarrow>
       (\<exists>d. extendLoop (fst c) (snd c) t dirs tiles =
              extendLoop (fst (advance t c)) (snd (advance t c)) t
                (dirs @ [d]) (tiles @ [advance t c]))
     \<and> manhattan t (advance t c) = manhattan t c - 1)
   \<and> (advance t ^^ nat (manhattan t c)) c = t
   \<and> (\<forall>k < nat (manhattan t c). (advance t ^^ k) c \<noteq> t)
   \<and> (\<exists>ds ts. extendLoop (fst c) (snd c) t dirs tiles = (fst t, snd t, dirs @ ds, tiles @ ts)
         \<and> int (length ts) = manhattan t c \<and> length ds = length ts)"
proof (intro conjI impI allI)
  assume "c \<noteq> t"
  then have "fst c \<noteq> fst t \<or> snd c \<noteq> snd t" by (auto simp: prod_eq_iff)
  from extendLoop_step [OF this, of dirs tiles]
  show "\<exists>d. extendLoop (fst c) (snd c) t dirs tiles =
              extendLoop (fst (advance t c)) (snd (advance t c)) t
                (dirs @ [d]) (tiles @ [advance t c])"
    by (auto simp: advance_def stepOf_def Let_def)
next
  assume "c \<noteq> t" then show "manhattan t (advance t c) = manhattan t c - 1"
    by (rule advance_manhattan)
next
  have "manhattan t ((advance t ^^ nat (manhattan t c)) c) = manhattan t c - int (nat (manhattan t c))"
    by (rule manhattan_funpow) (simp add: manhattan_nonneg)
  then show "(advance t ^^ nat (manhattan t c)) c = t"
    by (simp add: manhattan_nonneg manhattan_zero_iff)
next
  fix k assume k: "k < nat (manhattan t c)"
  then have "manhattan t ((advance t ^^ k) c) = manhattan t c - int k"
    by (intro manhattan_funpow) simp
  with k have "manhattan t ((advance t ^^ k) c) \<noteq> 0" by simp
  then show "(advance t ^^ k) c \<noteq> t" by (simp add: manhattan_zero_iff)
next
  from extendLoop_result [of "fst c" "snd c" t dirs tiles]
  show "\<exists>ds ts. extendLoop (fst c) (snd c) t dirs tiles = (fst t, snd t, dirs @ ds, tiles @ ts)
         \<and> int (length ts) = manhattan t c \<and> length ds = length ts"
    by (auto dest: chain_ok_length)
qed

theorem extendPathTo_terminates_witness:
  "((0, 0) :: tile) \<noteq> (3, 1) \<and> manhattan (3, 1) (0, 0) = 4
   \<and> manhattan (3, 1) (advance (3, 1) (0, 0)) = 3
   \<and> (advance (3, 1) ^^ 4) (0, 0) = (3, 1)
   \<and> (2::nat) < 4 \<and> (advance (3, 1) ^^ 2) (0, 0) \<noteq> (3, 1)"
proof -
  have m: "manhattan (3, 1) (0, 0) = 4" by (simp add: manhattan_def)
  note t = extendPathTo_terminates [of "(0, 0)" "(3, 1)" "[]" "[]"]
  from t have "(0, 0) \<noteq> ((3, 1) :: tile) \<longrightarrow>
      manhattan (3, 1) (advance (3, 1) (0, 0)) = manhattan (3, 1) (0, 0) - 1" by blast
  then have "manhattan (3, 1) (advance (3, 1) (0, 0)) = 3" by (simp add: m)
  moreover from t have "(advance (3, 1) ^^ 4) (0, 0) = (3, 1)" by (simp add: m)
  moreover from t have "\<forall>k<4. (advance (3, 1) ^^ k) (0, 0) \<noteq> (3, 1)" by (simp add: m)
  then have "(advance (3, 1) ^^ 2) (0, 0) \<noteq> (3, 1)" by simp
  ultimately show ?thesis using m by simp
qed

section \<open>Extension and the image bounds\<close>

text \<open>
  Claim C4, as amended.  \<open>extendPathTo\<close> itself does not check the image bounds: for
  every active path and every target tile, also one outside the image, it extends the
  path to the target, appending as many tiles and directions as the Manhattan distance
  from the last tile, and its result does not depend on the image size.  Its caller
  \<open>movePathAtScreen\<close> does check them: it leaves the state unchanged for a pointer
  whose world point is not within the image (or is not finite), and calls
  \<open>extendPathTo\<close> with the tile of the world point otherwise.
\<close>

theorem extendPathTo_unchecked_caller_checks:
  "(lastTile s = Some L \<longrightarrow>
       lastTile (extendPathTo s T) = Some T
     \<and> (\<exists>ts ds. pathTiles (extendPathTo s T) = pathTiles s @ ts
           \<and> pathDirections (extendPathTo s T) = pathDirections s @ ds
           \<and> int (length ts) = manhattan T L \<and> length ds = length ts
           \<and> (T \<noteq> L \<longrightarrow> ts \<noteq> [] \<and> last ts = T))
     \<and> extendPathTo (s\<lparr>imgW := w, imgH := h\<rparr>) T = (extendPathTo s T)\<lparr>imgW := w, imgH := h\<rparr>)
   \<and> (screenToWorld s sx sy = Some (wx, wy) \<and> \<not> withinImage s wx wy \<longrightarrow>
         movePathAtScreen s sx sy p c = s)
   \<and> (screenToWorld s sx sy = None \<longrightarrow> movePathAtScreen s sx sy p c = s)
   \<and> (isPathDrawing s \<and> screenToWorld s sx sy = Some (wx, wy) \<and> withinImage s wx wy
        \<and> lastTile s \<noteq> Some (worldToTile wx wy) \<longrightarrow>
         movePathAtScreen s sx sy p c =
           (if p = Mouse \<and> \<not> c then endPath (extendPathTo s (worldToTile wx wy))
            else extendPathTo s (worldToTile wx wy)))"
proof (intro conjI impI)
  assume a: "lastTile s = Some L"
  obtain lx ly where L: "L = (lx, ly)" by (cases L)
  from extendLoop_result [of lx ly T "pathDirections s" "pathTiles s"]
  obtain ds ts where r: "extendLoop lx ly T (pathDirections s) (pathTiles s)
        = (fst T, snd T, pathDirections s @ ds, pathTiles s @ ts)"
    and l: "int (length ts) = manhattan T (lx, ly)"
    and c: "chain_ok (lx, ly) ts ds"
    and e: "last ((lx, ly) # ts) = T" by blast
  show "lastTile (extendPathTo s T) = Some T"
    using a L r by (simp add: extendPathTo_def)
  have 2: "pathTiles (extendPathTo s T) = pathTiles s @ ts"
    "pathDirections (extendPathTo s T) = pathDirections s @ ds"
    using a L r by (simp_all add: extendPathTo_def)
  have 3: "T \<noteq> L \<longrightarrow> ts \<noteq> [] \<and> last ts = T"
    using e L by (cases ts) auto
  from 2 3 l L chain_ok_length [OF c]
  show "\<exists>ts ds. pathTiles (extendPathTo s T) = pathTiles s @ ts
           \<and> pathDirections (extendPathTo s T) = pathDirections s @ ds
           \<and> int (length ts) = manhattan T L \<and> length ds = length ts
           \<and> (T \<noteq> L \<longrightarrow> ts \<noteq> [] \<and> last ts = T)" by blast
  show "extendPathTo (s\<lparr>imgW := w, imgH := h\<rparr>) T = (extendPathTo s T)\<lparr>imgW := w, imgH := h\<rparr>"
    using a L by (simp add: extendPathTo_def split: prod.splits)
next
  assume "screenToWorld s sx sy = Some (wx, wy) \<and> \<not> withinImage s wx wy"
  then show "movePathAtScreen s sx sy p c = s"
    by (simp add: movePathAtScreen_def)
next
  assume "screenToWorld s sx sy = None"
  then show "movePathAtScreen s sx sy p c = s"
    by (simp add: movePathAtScreen_def)
next
  assume "isPathDrawing s \<and> screenToWorld s sx sy = Some (wx, wy) \<and> withinImage s wx wy
        \<and> lastTile s \<noteq> Some (worldToTile wx wy)"
  then show "movePathAtScreen s sx sy p c =
           (if p = Mouse \<and> \<not> c then endPath (extendPathTo s (worldToTile wx wy))
            else extendPathTo s (worldToTile wx wy))"
    by (simp add: movePathAtScreen_def Let_def)
qed

theorem extendPathTo_unchecked_caller_checks_witness:
  "lastTile s_origin = Some (0, 0)
   \<and> \<not> withinImage s_origin (TILE_SIZE * 1000) (TILE_SIZE * (-5))
   \<and> lastTile (extendPathTo s_origin (1000, -5)) = Some (1000, -5)
   \<and> (\<exists>ts ds. pathTiles (extendPathTo s_origin (1000, -5)) = pathTiles s_origin @ ts
         \<and> pathDirections (extendPathTo s_origin (1000, -5)) = pathDirections s_origin @ ds
         \<and> int (length ts) = 1005 \<and> length ds = length ts \<and> last ts = (1000, -5))
   \<and> screenToWorld s_origin 16000 (-80) = Some (16000, -80)
   \<and> movePathAtScreen s_origin 16000 (-80) Touch False = s_origin
   \<and> isPathDrawing s_origin \<and> screenToWorld s_origin 40 8 = Some (40, 8)
   \<and> withinImage s_origin 40 8 \<and> worldToTile 40 8 = (2, 0)
   \<and> movePathAtScreen s_origin 40 8 Touch False = extendPathTo s_origin (2, 0)"
proof -
  note t = extendPathTo_unchecked_caller_checks
  have l: "lastTile s_origin = Some (0, 0)" by (rule s_origin_fields)
  have m: "manhattan (1000, -5) (0, 0) = 1005" by (simp add: manhattan_def)
  have w: "\<not> withinImage s_origin (TILE_SIZE * 1000) (TILE_SIZE * (-5))"
    "\<not> withinImage s_origin 16000 (-80)" "withinImage s_origin 40 8"
    by (simp_all add: withinImage_def TILE_SIZE_def s_origin_view)
  have sw: "screenToWorld s_origin 16000 (-80) = Some (16000, -80)"
    "screenToWorld s_origin 40 8 = Some (40, 8)"
    by (simp_all add: screenToWorld_def s_origin_view)
  have wt: "worldToTile 40 8 = (2, 0)" by (simp add: worldToTile_def TILE_SIZE_def)
  have 1: "lastTile (extendPathTo s_origin (1000, -5)) = Some (1000, -5)
     \<and> (\<exists>ts ds. pathTiles (extendPathTo s_origin (1000, -5)) = pathTiles s_origin @ ts
         \<and> pathDirections (extendPathTo s_origin (1000, -5)) = pathDirections s_origin @ ds
         \<and> int (length ts) = 1005 \<and> length ds = length ts \<and> last ts = (1000, -5))"
    using t [of s_origin "(0, 0)" "(1000, -5)" 0 0 0 0 0 0 Touch False, THEN conjunct1] l m
    by auto
  have 2: "movePathAtScreen s_origin 16000 (-80) Touch False = s_origin"
    using t [of s_origin "(0, 0)" "(0, 0)" 0 0 16000 "-80" 16000 "-80" Touch False] sw w
    by blast
  have 3: "movePathAtScreen s_origin 40 8 Touch False = extendPathTo s_origin (2, 0)"
    using t [of s_origin "(0, 0)" "(0, 0)" 0 0 40 8 40 8 Touch False] sw w wt l
    by (simp add: s_origin_view)
  from 1 2 3 l w sw wt show ?thesis by (simp add: s_origin_view)
qed

text \<open>
  Claim C4, as stated, fails: \<open>startPathAtScreen\<close> is not the only operation that
  checks the bounds.  While a path is drawn, a pointer at the world point
  \<open>(16000, -80)\<close>, whose tile \<open>(1000, -5)\<close> lies outside the image, is ignored by
  \<open>movePathAtScreen\<close> and by the \<open>pointermove\<close> handler, and the path is not
  extended.
\<close>

theorem move_outside_image_ignored_counterexample:
  "isPathDrawing s_origin \<and> pathTiles s_origin = [(0, 0)]
   \<and> screenToWorld s_origin 16000 (-80) = Some (16000, -80)
   \<and> worldToTile 16000 (-80) = (1000, -5)
   \<and> \<not> withinImage s_origin 16000 (-80)
   \<and> movePathAtScreen s_origin 16000 (-80) Touch False = s_origin
   \<and> pathTiles (movePathAtScreen s_origin 16000 (-80) Touch False) = [(0, 0)]
   \<and> map_option pathTiles (onPointerMove s_drawing touch_move_outside) = Some [(0, 0)]"
proof -
  have a: "movePathAtScreen s_origin 16000 (-80) Touch False = s_origin"
    by (simp add: movePathAtScreen_def screenToWorld_def withinImage_def s_origin_view)
  have b: "worldToTile 16000 (-80) = (1000, -5)"
    by (simp add: worldToTile_def TILE_SIZE_def)
  have d: "s_drawing = s_origin\<lparr>pointers := [(2, \<lparr>px = 0, py = 0, ptype = Touch\<rparr>)],
                                 drawingPointerId := Some 2\<rparr>"
    by (simp add: s_drawing_def s_origin_def onDrawTimer_def onPointerDown_def touch_first_def
        s_loaded_def init_state_def Let_def cancelTouchCandidate_def beginTouchDraw_def
        startPathAtScreen_def screenToWorld_def withinImage_def clearPath_def worldToTile_def
        TILE_SIZE_def)
  have c: "map_option pathTiles (onPointerMove s_drawing touch_move_outside) = Some [(0, 0)]"
    unfolding d
    by (simp add: onPointerMove_def touch_move_outside_def ptr_has_def Let_def
        tryStartCandidateIfMoved_def movePathAtScreen_def screenToWorld_def withinImage_def
        s_origin_view s_origin_fields s_origin_def startPathAtScreen_def init_state_def
        clearPath_def worldToTile_def TILE_SIZE_def)
  from a b c show ?thesis
    by (simp add: s_origin_view s_origin_fields screenToWorld_def withinImage_def)
qed

section \<open>The invariant of the path state\<close>

lemma all_less_Suc_split: "(\<forall>i<Suc n. P i) \<longleftrightarrow> P 0 \<and> (\<forall>i<n. P (Suc i))"
  by (auto simp: less_Suc_eq_0_disj)

lemma chain_ok_iff:
  "chain_ok c ts ds \<longleftrightarrow>
     length ds = length ts
     \<and> (\<forall>i < length ds.
          \<bar>fst ((c # ts) ! (i + 1)) - fst ((c # ts) ! i)\<bar>
            + \<bar>snd ((c # ts) ! (i + 1)) - snd ((c # ts) ! i)\<bar> = 1
          \<and> dirFromStep (fst ((c # ts) ! (i + 1)) - fst ((c # ts) ! i))
                         (snd ((c # ts) ! (i + 1)) - snd ((c # ts) ! i)) = Some (ds ! i))"
proof (induction ts arbitrary: c ds)
  case Nil
  then show ?case by (cases ds) simp_all
next
  case (Cons c' ts)
  show ?case
  proof (cases ds)
    case Nil
    then show ?thesis by simp
  next
    case (Cons d ds')
    show ?thesis
      unfolding Cons
      by (simp add: Cons.IH [of c' ds'] all_less_Suc_split) blast
  qed
qed

lemma path_inv_alt:
  "path_inv s \<longleftrightarrow>
     (case pathTiles s of
        [] \<Rightarrow> pathDirections s = [] \<and> lastTile s = None
      | c # rest \<Rightarrow> lastTile s = Some (last (c # rest)) \<and> chain_ok c rest (pathDirections s))"
proof (cases "pathTiles s")
  case Nil
  then show ?thesis by (simp add: path_inv_def)
next
  case (Cons c rest)
  then show ?thesis
    by (simp add: path_inv_def chain_ok_iff [of c rest "pathDirections s"] del: last.simps)
qed

lemma path_inv_init: "path_inv init_state"
  by (simp add: path_inv_def init_state_def)

lemma path_inv_clearPath: "path_inv (clearPath s)"
  by (simp add: path_inv_def clearPath_def)

lemma path_inv_endPath: "path_inv s \<Longrightarrow> path_inv (endPath s)"
  by (auto simp: path_inv_def endPath_def split: if_splits)

lemma path_inv_startPath: "path_inv s \<Longrightarrow> path_inv (startPathAtScreen s sx sy)"
  by (auto simp: path_inv_alt startPathAtScreen_def clearPath_def Let_def split: option.splits)

lemma path_inv_extendPathTo:
  assumes "path_inv s"
  shows "path_inv (extendPathTo s t)"
proof (cases "lastTile s")
  case None
  then show ?thesis using assms by (simp add: extendPathTo_def)
next
  case (Some L)
  obtain lx ly where L: "L = (lx, ly)" by (cases L)
  from Some assms obtain c rest where tiles: "pathTiles s = c # rest"
    and last: "last (c # rest) = (lx, ly)" and ch: "chain_ok c rest (pathDirections s)"
    unfolding L path_inv_alt by (auto split: list.splits)
  from extendLoop_result [of lx ly t "pathDirections s" "pathTiles s"]
  obtain ds ts where r: "extendLoop lx ly t (pathDirections s) (pathTiles s)
        = (fst t, snd t, pathDirections s @ ds, pathTiles s @ ts)"
    and c: "chain_ok (lx, ly) ts ds"
    and e: "last ((lx, ly) # ts) = t" by blast
  have ch': "chain_ok c (rest @ ts) (pathDirections s @ ds)"
    using chain_ok_append [OF ch] c last by simp
  have l': "last (c # rest @ ts) = t"
    using e last by (cases ts) auto
  have "pathTiles (extendPathTo s t) = c # rest @ ts"
    "pathDirections (extendPathTo s t) = pathDirections s @ ds"
    "lastTile (extendPathTo s t) = Some t"
    using Some L r tiles by (simp_all add: extendPathTo_def)
  then show ?thesis
    using ch' l' by (simp add: path_inv_alt del: last.simps)
qed

text \<open>
  Claim C5, as amended.  The invariant \<open>path_inv\<close> is preserved by each of
  \<open>startPath\<close>, \<open>extendPathTo\<close>, \<open>endPath\<close> and \<open>clearPath\<close>: a non-empty path
  has exactly one direction fewer than tiles, consecutive tiles differ by one unit on
  one axis, each direction is the token of its step under \<open>dirFromStep\<close>, and
  \<open>lastTile\<close> is the last tile of the path; an empty path (the initial state and the
  state after \<open>clearPath\<close>) has no directions and no last tile.
\<close>

theorem path_inv_preserved:
  "path_inv s \<Longrightarrow> path_inv (apply_path_op s op)"
  by (cases op)
     (simp_all add: path_inv_startPath path_inv_extendPathTo path_inv_endPath path_inv_clearPath)

theorem path_inv_preserved_witness:
  "path_inv s_origin \<and> path_inv (apply_path_op s_origin (ExtendTo (3, 1)))"
proof -
  have "path_inv s_origin"
    by (simp add: path_inv_def s_origin_fields)
  with path_inv_preserved [of s_origin "ExtendTo (3, 1)"] show ?thesis by simp
qed

text \<open>
  Claim C5, as stated, fails after \<open>clearPath\<close>: the path then has no tiles and no
  directions, so the number of directions is not the number of tiles minus one.
\<close>

theorem one_fewer_direction_counterexample:
  "int (length (pathDirections (clearPath s_origin)))
     \<noteq> int (length (pathTiles (clearPath s_origin))) - 1"
  by (simp add: clearPath_def)

section \<open>Starting a path\<close>

text \<open>
  Claim C7.  \<open>withinImage\<close> holds exactly for the world points with both coordinates
  between zero and the image size, the bounds included.  Where the world point of the
  pointer is not within the image, \<open>startPathAtScreen\<close> returns the state unchanged;
  otherwise it replaces the path by the single tile of the world point, with no
  directions, and sets the drawing flag.
\<close>

theorem startPathAtScreen_spec:
  assumes "screenToWorld s sx sy = Some (wx, wy)"
  shows "withinImage s wx wy = (0 \<le> wx \<and> wx \<le> imgW s \<and> 0 \<le> wy \<and> wy \<le> imgH s)
     \<and> startPathAtScreen s sx sy =
         (if withinImage s wx wy
          then s\<lparr>pathTiles := [worldToTile wx wy], pathDirections := [],
                 lastTile := Some (worldToTile wx wy), cmdOutput := [], isPathDrawing := True\<rparr>
          else s)"
  using assms
  by (auto simp: startPathAtScreen_def withinImage_def clearPath_def Let_def)

theorem startPathAtScreen_spec_witness:
  "screenToWorld s_origin 40 7200 = Some (40, 7200)
   \<and> withinImage s_origin 40 7200
   \<and> startPathAtScreen s_origin 40 7200 =
       s_origin\<lparr>pathTiles := [(2, 450)], pathDirections := [], lastTile := Some (2, 450),
                cmdOutput := [], isPathDrawing := True\<rparr>
   \<and> screenToWorld s_origin 40 7201 = Some (40, 7201)
   \<and> \<not> withinImage s_origin 40 7201
   \<and> startPathAtScreen s_origin 40 7201 = s_origin"
proof -
  have f: "scale s_origin = 1" "panX s_origin = 0" "panY s_origin = 0"
    "imgW s_origin = 7200" "imgH s_origin = 7200"
    by (simp_all add: s_origin_def startPathAtScreen_def init_state_def screenToWorld_def
        withinImage_def clearPath_def Let_def)
  have a: "screenToWorld s_origin 40 7200 = Some (40, 7200)"
    and b: "screenToWorld s_origin 40 7201 = Some (40, 7201)"
    by (simp_all add: screenToWorld_def f)
  have t: "worldToTile 40 7200 = (2, 450)"
    by (simp add: worldToTile_def TILE_SIZE_def)
  from startPathAtScreen_spec [OF a] startPathAtScreen_spec [OF b] a b t
  show ?thesis by (simp add: f)
qed

text \<open>
  Claim C10.  A path started at a world point whose x coordinate is the image width (or
  whose y coordinate is the image height) is accepted; if that dimension is a multiple
  \<open>k\<close> of the tile size, the seeded tile has column (or row) \<open>k\<close>, while the last
  column (or row) that starts inside the image is \<open>k - 1\<close>.
\<close>

theorem startPath_at_right_edge:
  "(screenToWorld s sx sy = Some (imgW s, wy) \<and> 0 \<le> imgW s \<and> 0 \<le> wy \<and> wy \<le> imgH s \<longrightarrow>
        isPathDrawing (startPathAtScreen s sx sy)
      \<and> pathTiles (startPathAtScreen s sx sy) = [worldToTile (imgW s) wy]
      \<and> (\<forall>k. imgW s = TILE_SIZE * of_int k \<longrightarrow>
             fst (worldToTile (imgW s) wy) = k
           \<and> (0 < k \<longrightarrow> TILE_SIZE * of_int (k - 1) < imgW s)
           \<and> (\<forall>c. TILE_SIZE * of_int c < imgW s \<longrightarrow> c < k)))
   \<and> (screenToWorld s sx sy = Some (wx, imgH s) \<and> 0 \<le> imgH s \<and> 0 \<le> wx \<and> wx \<le> imgW s \<longrightarrow>
        isPathDrawing (startPathAtScreen s sx sy)
      \<and> pathTiles (startPathAtScreen s sx sy) = [worldToTile wx (imgH s)]
      \<and> (\<forall>k. imgH s = TILE_SIZE * of_int k \<longrightarrow>
             snd (worldToTile wx (imgH s)) = k
           \<and> (0 < k \<longrightarrow> TILE_SIZE * of_int (k - 1) < imgH s)
           \<and> (\<forall>r. TILE_SIZE * of_int r < imgH s \<longrightarrow> r < k)))"
  by (auto simp: startPathAtScreen_def withinImage_def clearPath_def Let_def worldToTile_def
        TILE_SIZE_def)

theorem startPath_at_right_edge_witness:
  "screenToWorld s_loaded 7200 8 = Some (imgW s_loaded, 8)
   \<and> imgW s_loaded = TILE_SIZE * of_int 450
   \<and> \<not> isPathDrawing s_loaded
   \<and> isPathDrawing (startPathAtScreen s_loaded 7200 8)
   \<and> pathTiles (startPathAtScreen s_loaded 7200 8) = [(450, 0)]
   \<and> TILE_SIZE * of_int 449 < imgW s_loaded \<and> \<not> TILE_SIZE * of_int 450 < imgW s_loaded
   \<and> screenToWorld s_loaded 8 7200 = Some (8, imgH s_loaded)
   \<and> imgH s_loaded = TILE_SIZE * of_int 450
   \<and> pathTiles (startPathAtScreen s_loaded 8 7200) = [(0, 450)]"
proof -
  note f = s_loaded_view
  have a: "screenToWorld s_loaded 7200 8 = Some (imgW s_loaded, 8)"
    and b: "screenToWorld s_loaded 8 7200 = Some (8, imgH s_loaded)"
    by (simp_all add: screenToWorld_def f)
  have m: "imgW s_loaded = TILE_SIZE * of_int 450" "imgH s_loaded = TILE_SIZE * of_int 450"
    by (simp_all add: f TILE_SIZE_def)
  have t: "worldToTile 7200 8 = (450, 0)" "worldToTile 8 7200 = (0, 450)"
    by (simp_all add: worldToTile_def TILE_SIZE_def)
  note e = startPath_at_right_edge [of s_loaded 7200 8 8 8]
  have 1: "isPathDrawing (startPathAtScreen s_loaded 7200 8)
     \<and> pathTiles (startPathAtScreen s_loaded 7200 8) = [(450, 0)]"
    using e [THEN conjunct1] a by (simp add: f t)
  have "0 < (450 :: int) \<longrightarrow> TILE_SIZE * of_int (450 - 1) < imgW s_loaded"
    using e [THEN conjunct1] a m(1) by (simp add: f)
  then have 3: "TILE_SIZE * of_int 449 < imgW s_loaded" by simp
  note e' = startPath_at_right_edge [of s_loaded 8 7200 8 8]
  have 2: "pathTiles (startPathAtScreen s_loaded 8 7200) = [(0, 450)]"
    using e' [THEN conjunct2] b by (simp add: f t)
  have 4: "\<not> TILE_SIZE * of_int 450 < imgW s_loaded"
    by (simp add: f TILE_SIZE_def)
  from 1 2 3 4 a b m show ?thesis by (simp add: f)
qed

section \<open>Round trip of the coordinate transform\<close>

text \<open>
  Claim C6.  For a transform with positive scale, mapping a screen point to the world
  and back with \<open>worldToScreen\<close> returns the screen point, exactly over the reals.
\<close>

theorem screenToWorld_roundtrip:
  "0 < scale s \<Longrightarrow> map_option (worldToScreen s) (screenToWorld s sx sy) = Some (sx, sy)"
  by (simp add: screenToWorld_def worldToScreen_def)

theorem screenToWorld_roundtrip_witness:
  "0 < scale (s_origin\<lparr>scale := 5 / 72, panX := 3, panY := 4\<rparr>)
   \<and> screenToWorld (s_origin\<lparr>scale := 5 / 72, panX := 3, panY := 4\<rparr>) 8 9 = Some (72, 72)
   \<and> worldToScreen (s_origin\<lparr>scale := 5 / 72, panX := 3, panY := 4\<rparr>) (72, 72) = (8, 9)"
  using screenToWorld_roundtrip [of "s_origin\<lparr>scale := 5 / 72, panX := 3, panY := 4\<rparr>" 8 9]
  by (simp add: screenToWorld_def)

section \<open>What the helpers leave unchanged\<close>

lemma clamp_zoom_range:
  "ZOOM_MIN \<le> clamp v ZOOM_MIN ZOOM_MAX" "clamp v ZOOM_MIN ZOOM_MAX \<le> ZOOM_MAX"
  by (simp_all add: clamp_def ZOOM_MIN_def ZOOM_MAX_def)

lemma clearPath_frame [simp]:
  "scale (clearPath s) = scale s" "zoomMode (clearPath s) = zoomMode s"
  "pinchMidWorld (clearPath s) = pinchMidWorld s" "pointers (clearPath s) = pointers s"
  "isPanning (clearPath s) = isPanning s" "isPinching (clearPath s) = isPinching s"
  "isPathDrawing (clearPath s) = isPathDrawing s"
  by (simp_all add: clearPath_def)

lemma endPath_frame [simp]:
  "scale (endPath s) = scale s" "zoomMode (endPath s) = zoomMode s"
  "pinchMidWorld (endPath s) = pinchMidWorld s" "pointers (endPath s) = pointers s"
  "isPanning (endPath s) = isPanning s" "isPinching (endPath s) = isPinching s"
  "isPathDrawing (endPath s) = False"
  by (simp_all add: endPath_def)

lemma extendPathTo_frame [simp]:
  "scale (extendPathTo s t) = scale s" "zoomMode (extendPathTo s t) = zoomMode s"
  "pinchMidWorld (extendPathTo s t) = pinchMidWorld s" "pointers (extendPathTo s t) = pointers s"
  "isPanning (extendPathTo s t) = isPanning s" "isPinching (extendPathTo s t) = isPinching s"
  "isPathDrawing (extendPathTo s t) = isPathDrawing s"
  by (simp_all add: extendPathTo_def split: option.splits prod.splits)

lemma startPathAtScreen_frame [simp]:
  "scale (startPathAtScreen s x y) = scale s" "zoomMode (startPathAtScreen s x y) = zoomMode s"
  "pinchMidWorld (startPathAtScreen s x y) = pinchMidWorld s"
  "pointers (startPathAtScreen s x y) = pointers s"
  "isPanning (startPathAtScreen s x y) = isPanning s"
  "isPinching (startPathAtScreen s x y) = isPinching s"
  by (simp_all add: startPathAtScreen_def Let_def split: option.splits prod.splits)

lemma movePathAtScreen_frame [simp]:
  "scale (movePathAtScreen s x y p c) = scale s"
  "zoomMode (movePathAtScreen s x y p c) = zoomMode s"
  "pinchMidWorld (movePathAtScreen s x y p c) = pinchMidWorld s"
  "pointers (movePathAtScreen s x y p c) = pointers s"
  "isPanning (movePathAtScreen s x y p c) = isPanning s"
  "isPinching (movePathAtScreen s x y p c) = isPinching s"
  by (simp_all add: movePathAtScreen_def Let_def split: option.splits prod.splits)

lemma movePathAtScreen_drawing:
  "isPathDrawing (movePathAtScreen s x y p c) \<Longrightarrow> isPathDrawing s"
  by (simp add: movePathAtScreen_def Let_def split: option.splits prod.splits if_splits)

lemma cancelTouchCandidate_frame [simp]:
  "scale (cancelTouchCandidate s) = scale s" "zoomMode (cancelTouchCandidate s) = zoomMode s"
  "pinchMidWorld (cancelTouchCandidate s) = pinchMidWorld s"
  "pointers (cancelTouchCandidate s) = pointers s"
  "isPanning (cancelTouchCandidate s) = isPanning s"
  "isPinching (cancelTouchCandidate s) = isPinching s"
  "isPathDrawing (cancelTouchCandidate s) = isPathDrawing s"
  by (simp_all add: cancelTouchCandidate_def)

lemma abortDrawing_frame [simp]:
  "scale (abortDrawing s c) = scale s" "zoomMode (abortDrawing s c) = zoomMode s"
  "pinchMidWorld (abortDrawing s c) = pinchMidWorld s"
  "pointers (abortDrawing s c) = pointers s"
  "isPanning (abortDrawing s c) = isPanning s"
  "isPinching (abortDrawing s c) = isPinching s"
  "isPathDrawing (abortDrawing s c) = False"
  by (simp_all add: abortDrawing_def Let_def)

lemma beginTouchDraw_frame [simp]:
  "scale (beginTouchDraw s i x y) = scale s" "zoomMode (beginTouchDraw s i x y) = zoomMode s"
  "pinchMidWorld (beginTouchDraw s i x y) = pinchMidWorld s"
  "pointers (beginTouchDraw s i x y) = pointers s"
  "isPanning (beginTouchDraw s i x y) = isPanning s"
  "isPinching (beginTouchDraw s i x y) = isPinching s"
  by (simp_all add: beginTouchDraw_def)

lemma tryStartCandidateIfMoved_frame [simp]:
  "scale (tryStartCandidateIfMoved s e) = scale s"
  "zoomMode (tryStartCandidateIfMoved s e) = zoomMode s"
  "pinchMidWorld (tryStartCandidateIfMoved s e) = pinchMidWorld s"
  "pointers (tryStartCandidateIfMoved s e) = pointers s"
  "isPanning (tryStartCandidateIfMoved s e) = isPanning s"
  "isPinching (tryStartCandidateIfMoved s e) = isPinching s"
  by (simp_all add: tryStartCandidateIfMoved_def Let_def split: option.splits prod.splits)

lemma tryStartCandidateIfMoved_drawing:
  "isPathDrawing (tryStartCandidateIfMoved s e) \<Longrightarrow>
     isPathDrawing s \<or> length (pointers s) = 1"
  by (simp add: tryStartCandidateIfMoved_def Let_def split: option.splits prod.splits if_splits)

lemma onDrawTimer_frame [simp]:
  "scale (onDrawTimer s) = scale s" "zoomMode (onDrawTimer s) = zoomMode s"
  "pinchMidWorld (onDrawTimer s) = pinchMidWorld s"
  "pointers (onDrawTimer s) = pointers s"
  "isPanning (onDrawTimer s) = isPanning s"
  "isPinching (onDrawTimer s) = isPinching s"
  by (simp_all add: onDrawTimer_def split: option.splits prod.splits)

lemma onDrawTimer_drawing:
  "isPathDrawing (onDrawTimer s) \<Longrightarrow> isPathDrawing s \<or> length (pointers s) = 1"
  by (simp add: onDrawTimer_def split: option.splits prod.splits if_splits)

lemma screenToWorld_defined: "scale s \<noteq> 0 \<Longrightarrow> screenToWorld s x y \<noteq> None"
  by (simp add: screenToWorld_def)

section \<open>The zoom bounds\<close>














section \<open>Exclusion of the gestures\<close>

lemma length_ptr_set:
  "length (ptr_set m k v) = (if ptr_has m k then length m else length m + 1)"
  by (induction m) (force simp: ptr_has_def)+

lemma ptr_set_nonempty: "ptr_set m k v \<noteq> []"
  by (cases m) (auto split: if_splits)

lemma length_ptr_set_pos: "0 < length (ptr_set m k v)"
  using ptr_set_nonempty [of m k v] by simp

lemma length_ptr_delete: "length (ptr_delete m k) \<le> length m"
  by (simp add: ptr_delete_def)

lemma gesture_inv_onPointerDown:
  assumes "gesture_inv s" "pointerType e = Touch"
  shows "gesture_inv (onPointerDown s e)"
proof -
  let ?m = "ptr_set (pointers s) (pointerId e) \<lparr>px = clientX e, py = clientY e, ptype = Touch\<rparr>"
  have len: "length (pointers s) \<le> length ?m" "length ?m \<le> length (pointers s) + 1"
    by (simp_all add: length_ptr_set)
  have pos: "0 < length ?m"
    by (rule length_ptr_set_pos)
  consider (two) "length ?m = 2" | (one) "length ?m = 1" | (more) "2 < length ?m"
    using pos by linarith
  then show ?thesis
  proof cases
    case two
    then show ?thesis
      using assms len
      by (auto simp: gesture_inv_def onPointerDown_def Let_def screenToWorld_def
            split: option.splits prod.splits)
  next
    case one
    then obtain pid p where m: "?m = [(pid, p)]"
      by (cases ?m) auto
    show ?thesis
      using assms len one
      by (auto simp: gesture_inv_def onPointerDown_def Let_def m)
  next
    case more
    then show ?thesis
      using assms len
      by (auto simp: gesture_inv_def onPointerDown_def Let_def)
  qed
qed

lemma gesture_inv_onPointerUp:
  assumes "gesture_inv s" "pointerType e = Touch"
  shows "gesture_inv (onPointerUp s e)"
  using assms length_ptr_delete [of "pointers s" "pointerId e"]
  by (auto simp: gesture_inv_def onPointerUp_def Let_def split: option.splits prod.splits)

lemma gesture_inv_onDrawTimer:
  assumes "gesture_inv s"
  shows "gesture_inv (onDrawTimer s)"
  using assms onDrawTimer_drawing [of s]
  by (auto simp: gesture_inv_def)

lemma gesture_inv_onPointerMove:
  assumes "gesture_inv s" "pointerType e = Touch"
  shows "\<exists>s'. onPointerMove s e = Some s' \<and> gesture_inv s'"
proof (cases "ptr_has (pointers s) (pointerId e)")
  case False
  then show ?thesis using assms by (simp add: onPointerMove_def)
next
  case True
  let ?s1 = "s\<lparr>pointers := ptr_set (pointers s) (pointerId e)
                      \<lparr>px = clientX e, py = clientY e, ptype = pointerType e\<rparr>\<rparr>"
  have len: "length (pointers ?s1) = length (pointers s)"
    using True by (simp add: length_ptr_set)
  have inv1: "gesture_inv ?s1" using assms(1) len by (simp add: gesture_inv_def)
  have cz: "clamp v ZOOM_MIN ZOOM_MAX \<noteq> 0" for v
    using clamp_zoom_range(1) [of v] by (simp add: ZOOM_MIN_def)
  show ?thesis
  proof (cases "isPinching ?s1 \<and> length (pointers ?s1) \<ge> 2")
    case True
    then show ?thesis
      using inv1 \<open>ptr_has (pointers s) (pointerId e)\<close> cz
      by (auto simp: onPointerMove_def Let_def gesture_inv_def split: option.splits prod.splits)
  next
    case False
    let ?s2 = "tryStartCandidateIfMoved ?s1 e"
    have inv2: "gesture_inv ?s2"
      using inv1 tryStartCandidateIfMoved_drawing [of ?s1 e]
      by (auto simp: gesture_inv_def)
    have inv3: "gesture_inv (movePathAtScreen ?s2 x y p c)" for x y p c
      using inv2 movePathAtScreen_drawing [of ?s2 x y p c]
      by (auto simp: gesture_inv_def)
    have np: "\<not> isPanning ?s1" using inv1 by (simp add: gesture_inv_def)
    show ?thesis
      using False np inv2 inv3 \<open>ptr_has (pointers s) (pointerId e)\<close> assms(2)
      by (auto simp: onPointerMove_def Let_def)
  qed
qed

lemma gesture_inv_apply_input:
  "gesture_inv s \<Longrightarrow> touch_input i \<Longrightarrow> \<exists>s'. apply_input s i = Some s' \<and> gesture_inv s'"
  by (cases i)
     (simp_all add: gesture_inv_onPointerDown gesture_inv_onPointerUp gesture_inv_onDrawTimer
        gesture_inv_onPointerMove)

lemma gesture_inv_run_inputs:
  "gesture_inv s \<Longrightarrow> \<forall>i \<in> set is. touch_input i \<Longrightarrow>
     \<exists>s'. run_inputs s is = Some s' \<and> gesture_inv s'"
proof (induction "is" arbitrary: s)
  case Nil
  then show ?case by simp
next
  case (Cons i "is")
  from Cons.prems obtain s1 where s1: "apply_input s i = Some s1" "gesture_inv s1"
    using gesture_inv_apply_input [of s i] by auto
  from Cons.IH [OF s1(2)] Cons.prems(2) s1(1) show ?case by simp
qed

lemma gesture_inv_exclusive: "gesture_inv s \<Longrightarrow> exclusive s"
  by (auto simp: gesture_inv_def exclusive_def)

lemma startPathAtScreen_candidate [simp]:
  "drawCandidate (startPathAtScreen s x y) = drawCandidate s"
  by (simp add: startPathAtScreen_def Let_def clearPath_def split: option.splits prod.splits)

lemma movePathAtScreen_candidate [simp]:
  "drawCandidate (movePathAtScreen s x y p c) = drawCandidate s"
  by (simp add: movePathAtScreen_def Let_def extendPathTo_def endPath_def
        split: option.splits prod.splits)

lemma mouse_inv_onPointerDown:
  assumes "mouse_inv False s" "pointerType e = Mouse"
  shows "mouse_inv True (onPointerDown s e)"
  using assms by (auto simp: mouse_inv_def onPointerDown_def Let_def)

lemma mouse_inv_onPointerUp:
  assumes "mouse_inv down s" "pointerType e = Mouse"
  shows "mouse_inv False (onPointerUp s e)"
  using assms by (auto simp: mouse_inv_def onPointerUp_def Let_def endPath_def)

lemma mouse_inv_onPointerMove:
  assumes "mouse_inv down s" "pointerType e = Mouse"
  shows "\<exists>s'. onPointerMove s e = Some s' \<and> mouse_inv down s'"
proof (cases "ptr_has (pointers s) (pointerId e)")
  case False
  then show ?thesis using assms by (simp add: onPointerMove_def)
next
  case True
  let ?s1 = "s\<lparr>pointers := ptr_set (pointers s) (pointerId e)
                      \<lparr>px = clientX e, py = clientY e, ptype = Mouse\<rparr>\<rparr>"
  have t: "tryStartCandidateIfMoved ?s1 e = ?s1"
    using assms(1) by (simp add: tryStartCandidateIfMoved_def mouse_inv_def)
  have inv1: "mouse_inv down ?s1" using assms(1) by (simp add: mouse_inv_def)
  have inv2: "mouse_inv down (movePathAtScreen ?s1 x y p c)" for x y p c
    using inv1 movePathAtScreen_drawing [of ?s1 x y p c]
    by (auto simp: mouse_inv_def)
  show ?thesis
    using True assms(2) inv1 inv2 t
    by (auto simp: onPointerMove_def Let_def mouse_inv_def)
qed

lemma mouse_inv_run_inputs:
  "mouse_inv down s \<Longrightarrow> mouse_seq down is \<Longrightarrow>
     \<exists>s' down'. run_inputs s is = Some s' \<and> mouse_inv down' s'"
proof (induction down "is" arbitrary: s rule: mouse_seq.induct)
  case (1 down)
  then show ?case by auto
next
  case (2 down e "is")
  then have "mouse_inv True (onPointerDown s e)"
    using mouse_inv_onPointerDown [of s e] by simp
  from "2.IH" [OF this] "2.prems" show ?case by simp
next
  case (3 down e "is")
  then obtain s1 where s1: "onPointerMove s e = Some s1" "mouse_inv down s1"
    using mouse_inv_onPointerMove [of down s e] by auto
  from "3.IH" [OF s1(2)] "3.prems" s1(1) show ?case by simp
next
  case (4 down e "is")
  then have "mouse_inv False (onPointerUp s e)"
    using mouse_inv_onPointerUp [of down s e] by simp
  from "4.IH" [OF this] "4.prems" show ?case by simp
qed simp_all

lemma mouse_inv_exclusive: "mouse_inv down s \<Longrightarrow> exclusive s"
  by (auto simp: mouse_inv_def exclusive_def)

text \<open>
  Claim C8, as amended.  From an idle state (no active pointer, no gesture active, no
  candidate pending, a non-zero scale), every sequence of inputs of one modality runs
  through, and in the state it reaches at most one of panning, drawing and pinching is
  active.  The inputs of one modality are the pointer events of touch pointers with the
  timer callbacks, or the pointer events of the mouse in which a press follows only a
  release.
\<close>

theorem single_modality_gestures_exclusive:
  assumes "pointers s = []" "\<not> isPanning s" "\<not> isPinching s" "\<not> isPathDrawing s"
    and "drawCandidate s = None" "scale s \<noteq> 0" "pinchMidWorld s \<noteq> None"
    and "(\<forall>i \<in> set is. touch_input i) \<or> mouse_seq False is"
  shows "\<exists>s'. run_inputs s is = Some s' \<and> exclusive s'"
  using assms(8)
proof
  assume t: "\<forall>i \<in> set is. touch_input i"
  have "gesture_inv s" using assms by (simp add: gesture_inv_def)
  from gesture_inv_run_inputs [OF this t]
  show ?thesis by (auto simp: gesture_inv_exclusive)
next
  assume m: "mouse_seq False is"
  have "mouse_inv False s" using assms by (simp add: mouse_inv_def)
  from mouse_inv_run_inputs [OF this m]
  show ?thesis by (auto simp: mouse_inv_exclusive)
qed

theorem single_modality_gestures_exclusive_witness:
  "pointers s_loaded = [] \<and> \<not> isPanning s_loaded \<and> \<not> isPinching s_loaded
   \<and> \<not> isPathDrawing s_loaded \<and> drawCandidate s_loaded = None
   \<and> scale s_loaded \<noteq> 0 \<and> pinchMidWorld s_loaded \<noteq> None
   \<and> list_all touch_input [PDown touch_first, DrawTimer, PDown touch_second,
                           PMove touch_second, PUp touch_second]
   \<and> (\<exists>s'. run_inputs s_loaded [PDown touch_first, DrawTimer, PDown touch_second,
                                  PMove touch_second, PUp touch_second] = Some s'
          \<and> exclusive s')
   \<and> mouse_seq False [PDown mouse_down, PMove mouse_down, PUp mouse_down,
                       PDown mouse_ctrl_down, PMove mouse_ctrl_down]
   \<and> (\<exists>s'. run_inputs s_loaded [PDown mouse_down, PMove mouse_down, PUp mouse_down,
                                  PDown mouse_ctrl_down, PMove mouse_ctrl_down] = Some s'
          \<and> exclusive s')"
proof -
  let ?ts = "[PDown touch_first, DrawTimer, PDown touch_second, PMove touch_second,
              PUp touch_second]"
  let ?ms = "[PDown mouse_down, PMove mouse_down, PUp mouse_down,
              PDown mouse_ctrl_down, PMove mouse_ctrl_down]"
  have t: "\<forall>i \<in> set ?ts. touch_input i"
    by (simp add: touch_first_def touch_second_def)
  have m: "mouse_seq False ?ms"
    by (simp add: mouse_down_def mouse_ctrl_down_def)
  have h: "pointers s_loaded = []" "\<not> isPanning s_loaded" "\<not> isPinching s_loaded"
    "\<not> isPathDrawing s_loaded" "drawCandidate s_loaded = None"
    "scale s_loaded \<noteq> 0" "pinchMidWorld s_loaded \<noteq> None"
    by (simp_all add: s_loaded_view)
  have 1: "\<exists>s'. run_inputs s_loaded ?ts = Some s' \<and> exclusive s'"
    using single_modality_gestures_exclusive [OF h, of ?ts] t by blast
  have 2: "\<exists>s'. run_inputs s_loaded ?ms = Some s' \<and> exclusive s'"
    using single_modality_gestures_exclusive [OF h, of ?ms] m by blast
  from 1 2 h t m show ?thesis by (simp add: list_all_iff)
qed

text \<open>
  Claim C8, as stated, fails when mouse and touch are mixed: a mouse press without the
  control key starts panning, and a touch that arrives while the button is held is the
  second active pointer and starts a pinch, so panning and pinching are both active.
\<close>

theorem mouse_pan_and_touch_pinch_counterexample:
  "map_option isPanning (run_inputs s_loaded [PDown mouse_down, PDown touch_second]) = Some True
   \<and> map_option isPinching (run_inputs s_loaded [PDown mouse_down, PDown touch_second]) = Some True
   \<and> map_option exclusive (run_inputs s_loaded [PDown mouse_down, PDown touch_second]) = Some False"
  by (simp add: exclusive_def onPointerDown_def mouse_down_def touch_second_def s_loaded_view
        Let_def getTwoPointers_def cancelTouchCandidate_def)

text \<open>
  Claim C1, as amended: in the first variant of the handlers.  When a drawing is in
  progress with exactly one active pointer and a touch with another pointer id arrives,
  \<open>onPointerDown\<close> discards the path (tiles, directions, last tile and command output
  cleared, drawing flag and drawing pointer reset), cancels any candidate, and starts a
  pinch whose start distance, start scale and world midpoint are computed from the
  stored position of the first pointer and the position of the new one.
\<close>

theorem second_touch_aborts_draw:
  assumes "pointers s = [(i, p)]" and "isPathDrawing s"
    and "pointerType e = Touch" and "pointerId e \<noteq> i"
  shows "pointers (onPointerDown s e)
           = [(i, p), (pointerId e, \<lparr>px = clientX e, py = clientY e, ptype = Touch\<rparr>)]
     \<and> pathTiles (onPointerDown s e) = [] \<and> pathDirections (onPointerDown s e) = []
     \<and> lastTile (onPointerDown s e) = None \<and> cmdOutput (onPointerDown s e) = []
     \<and> \<not> isPathDrawing (onPointerDown s e) \<and> drawingPointerId (onPointerDown s e) = None
     \<and> drawCandidate (onPointerDown s e) = None
     \<and> isPinching (onPointerDown s e)
     \<and> isPanning (onPointerDown s e) = isPanning s
     \<and> pinchStartDist (onPointerDown s e)
          = dist p \<lparr>px = clientX e, py = clientY e, ptype = Touch\<rparr>
     \<and> pinchStartScale (onPointerDown s e) = scale s
     \<and> pinchMidWorld (onPointerDown s e)
          = screenToWorld s ((px p + clientX e) / 2) ((py p + clientY e) / 2)
     \<and> zoomMode (onPointerDown s e) = Abs"
  using assms
  by (simp add: onPointerDown_def Let_def getTwoPointers_def cancelTouchCandidate_def
        abortDrawing_def clearPath_def midpoint_def screenToWorld_def)

lemma sqrt_2500: "sqrt 2500 = 50"
  by (rule real_sqrt_unique) simp_all

lemma s_drawing_fields:
  "pointers s_drawing = [(2, \<lparr>px = 0, py = 0, ptype = Touch\<rparr>)]"
  "isPathDrawing s_drawing" "pathTiles s_drawing = [(0, 0)]" "scale s_drawing = 1"
  "panX s_drawing = 0" "panY s_drawing = 0" "drawingPointerId s_drawing = Some 2"
  by (simp_all add: s_drawing_def onDrawTimer_def onPointerDown_def touch_first_def
        s_loaded_def init_state_def Let_def cancelTouchCandidate_def beginTouchDraw_def
        startPathAtScreen_def screenToWorld_def withinImage_def clearPath_def worldToTile_def
        TILE_SIZE_def)

theorem second_touch_aborts_draw_witness:
  "pointers s_drawing = [(2, \<lparr>px = 0, py = 0, ptype = Touch\<rparr>)] \<and> isPathDrawing s_drawing
   \<and> pathTiles s_drawing = [(0, 0)]
   \<and> pointerType touch_second = Touch \<and> pointerId touch_second \<noteq> 2
   \<and> pathTiles (onPointerDown s_drawing touch_second) = []
   \<and> pathDirections (onPointerDown s_drawing touch_second) = []
   \<and> \<not> isPathDrawing (onPointerDown s_drawing touch_second)
   \<and> isPinching (onPointerDown s_drawing touch_second)
   \<and> pinchStartDist (onPointerDown s_drawing touch_second) = 50
   \<and> pinchStartScale (onPointerDown s_drawing touch_second) = 1
   \<and> pinchMidWorld (onPointerDown s_drawing touch_second) = Some (15, 20)"
proof -
  have e: "pointerType touch_second = Touch" "pointerId touch_second \<noteq> 2"
    "clientX touch_second = 30" "clientY touch_second = 40"
    by (simp_all add: touch_second_def)
  have d: "dist \<lparr>px = 0, py = 0, ptype = Touch\<rparr> \<lparr>px = 30, py = 40, ptype = Touch\<rparr> = 50"
    by (simp add: dist_def sqrt_2500)
  from second_touch_aborts_draw [OF s_drawing_fields(1) s_drawing_fields(2) e(1) e(2)]
  show ?thesis
    using e d by (simp add: s_drawing_fields screenToWorld_def)
qed

text \<open>
  Claim C1, as stated, fails in the second variant of the handlers: there the first
  touch starts a path at once, and a second touch that arrives while the path is drawn
  leaves the path and the drawing flag as they are and starts no pinch.
\<close>

theorem second_touch_keeps_drawing_counterexample:
  "isPathDrawing (onPointerDown_ungated s_loaded touch_first)
   \<and> pointers (onPointerDown_ungated s_loaded touch_first)
       = [(2, \<lparr>px = 0, py = 0, ptype = Touch\<rparr>)]
   \<and> pathTiles (onPointerDown_ungated s_loaded touch_first) = [(0, 0)]
   \<and> pathTiles (onPointerDown_ungated (onPointerDown_ungated s_loaded touch_first) touch_second)
       = [(0, 0)]
   \<and> isPathDrawing (onPointerDown_ungated (onPointerDown_ungated s_loaded touch_first) touch_second)
   \<and> \<not> isPinching (onPointerDown_ungated (onPointerDown_ungated s_loaded touch_first) touch_second)"
  by (simp add: onPointerDown_ungated_def touch_first_def touch_second_def
        s_loaded_def init_state_def Let_def
        startPathAtScreen_def screenToWorld_def withinImage_def clearPath_def worldToTile_def
        TILE_SIZE_def)

text \<open>
  In the map-library variant a second touch ends the drawing but keeps the path: only
  the pointer map, the candidate, the drawing flag and the drawing pointer change.
\<close>

lemma lf_second_touch_keeps_path:
  assumes "lf_pointers s = [(i, t)]" and "lf_isPathDrawing s"
    and "lf_pointerType e = Touch" and "lf_pointerId e \<noteq> i"
  shows "lf_onPointerDown s e =
           s\<lparr>lf_pointers := [(i, t), (lf_pointerId e, Touch)], lf_drawCandidate := None,
             lf_isPathDrawing := False, lf_drawingPointerId := None\<rparr>"
  using assms
  by (simp add: lf_onPointerDown_def Let_def lf_cancelTouchCandidate_def lf_endPath_def)

end
